theory Spec2Isabelle
  imports Main "HOL-Library.Char_ord" "HOL-Library.List_Lexorder" "HOL-Library.Sublist"
begin

section \<open>The catalog: models.py\<close>

text \<open>
  The repository declares two Django models and leaves every operation to the
  framework. The embedding therefore transcribes the declarations (fields, the
  cascading foreign key, the unique column, the default orderings, the serializer field
  lists, the search fields) and gives each framework operation the declarations select
  its documented meaning as a function on an explicit store.

  Strings are lists of 8-bit characters. A date is carried as an already parsed value;
  how the framework parses date text is not part of the embedding.
\<close>

datatype date = Date nat nat nat

text \<open>
  \<^verbatim>\<open>class Author(models.Model)\<close>: \<open>name\<close>, a nullable \<open>birth_date\<close>, \<open>country\<close>, and the
  implicit auto-increment primary key \<open>id\<close> (here \<open>author_pk\<close>).
\<close>

record Author =
  author_pk :: int
  name :: string
  birth_date :: "date option"
  country :: string

text \<open>
  \<^verbatim>\<open>class Book(models.Model)\<close>: \<open>title\<close>, the foreign key \<open>author\<close> (stored as the column
  \<open>author_id\<close>), \<open>published_date\<close>, the unique \<open>isbn\<close>, and the primary key \<open>id\<close> (here
  \<open>book_pk\<close>).
\<close>

record Book =
  book_pk :: int
  title :: string
  author_id :: int
  published_date :: date
  isbn :: string

text \<open>
  The database: the rows of both tables in insertion order, and per table the largest
  key ever used (an auto-increment key is one more than that, never a reused one).
\<close>

record store =
  Author_objects :: "Author list"
  Book_objects :: "Book list"
  author_seq :: int
  book_seq :: int

definition empty_store :: store where
  "empty_store = \<lparr>Author_objects = [], Book_objects = [], author_seq = 0, book_seq = 0\<rparr>"

text \<open>
  What the database guarantees of every state it reaches: primary keys and isbn values
  are unique, every book's \<open>author_id\<close> is the key of a stored author, and no key is
  above its table's counter.
\<close>

definition store_ok :: "store \<Rightarrow> bool" where
  "store_ok s \<longleftrightarrow>
     distinct (map author_pk (Author_objects s)) \<and>
     distinct (map book_pk (Book_objects s)) \<and>
     distinct (map isbn (Book_objects s)) \<and>
     list_all (\<lambda>b. author_id b \<in> author_pk ` set (Author_objects s)) (Book_objects s) \<and>
     list_all (\<lambda>a. author_pk a \<le> author_seq s) (Author_objects s) \<and>
     list_all (\<lambda>b. book_pk b \<le> book_seq s) (Book_objects s)"

datatype key = KStr string | KInt int | KNone

text \<open>The error codes of the serializer fields' validation failures.\<close>

datatype code = Required | IsNull | Blank | MaxLength | NullCharacters | Unique | DoesNotExist

text \<open>
  Every way an operation fails: Python's \<open>KeyError\<close> and \<open>TypeError\<close>, the database's
  \<open>IntegrityError\<close>, the API's not-found response, a serializer's \<open>ValidationError\<close> with
  its (field, code) details, and the ORM's \<open>DoesNotExist\<close> on a dangling reference.
\<close>

datatype error =
    KeyError key
  | TypeError
  | IntegrityError
  | NotFound
  | ValidationError "(string \<times> code) list"
  | ObjectDoesNotExist

subsection \<open>Row operations of the object-relational layer\<close>

text \<open>
  \<^verbatim>\<open>Author.objects.create(id=.., name=.., birth_date=.., country=..)\<close>. An argument
  \<open>None\<close> is Python's \<open>None\<close>: for \<open>id\<close> it asks for the next key, for the \<open>NOT NULL\<close>
  columns \<open>name\<close> and \<open>country\<close> the insert is rejected. An explicit key already in the
  table is rejected.
\<close>

definition Author_objects_create ::
    "store \<Rightarrow> int option \<Rightarrow> string option \<Rightarrow> date option \<Rightarrow> string option \<Rightarrow> error + (Author \<times> store)" where
  "Author_objects_create s pk nm bd ctry =
     (case (nm, ctry) of
        (Some n, Some c) \<Rightarrow>
          (case pk of
             None \<Rightarrow>
               (let a = \<lparr>author_pk = author_seq s + 1, name = n, birth_date = bd, country = c\<rparr>
                in Inr (a, s\<lparr>Author_objects := Author_objects s @ [a], author_seq := author_seq s + 1\<rparr>))
           | Some i \<Rightarrow>
               if i \<in> author_pk ` set (Author_objects s) then Inl IntegrityError
               else
                 (let a = \<lparr>author_pk = i, name = n, birth_date = bd, country = c\<rparr>
                  in Inr (a, s\<lparr>Author_objects := Author_objects s @ [a],
                               author_seq := max (author_seq s) i\<rparr>)))
      | _ \<Rightarrow> Inl IntegrityError)"

text \<open>
  \<^verbatim>\<open>Book.objects.create(title=.., author=.., published_date=.., isbn=..)\<close>: every column is
  \<open>NOT NULL\<close>, \<open>isbn\<close> is \<open>unique=True\<close>, and \<open>author\<close> must be a stored row. A violation is
  an \<open>IntegrityError\<close> and inserts nothing.
\<close>

definition Book_objects_create ::
    "store \<Rightarrow> string option \<Rightarrow> Author option \<Rightarrow> date option \<Rightarrow> string option \<Rightarrow> error + (Book \<times> store)" where
  "Book_objects_create s ttl auth pd isb =
     (case (ttl, auth, pd, isb) of
        (Some t, Some a, Some d, Some i) \<Rightarrow>
          if i \<in> isbn ` set (Book_objects s) then Inl IntegrityError
          else if author_pk a \<notin> author_pk ` set (Author_objects s) then Inl IntegrityError
          else
            (let b = \<lparr>book_pk = book_seq s + 1, title = t, author_id = author_pk a,
                       published_date = d, isbn = i\<rparr>
             in Inr (b, s\<lparr>Book_objects := Book_objects s @ [b], book_seq := book_seq s + 1\<rparr>))
      | _ \<Rightarrow> Inl IntegrityError)"

text \<open>
  \<^verbatim>\<open>author.delete()\<close> with \<^verbatim>\<open>on_delete=models.CASCADE\<close> on \<open>Book.author\<close>: the author's row and
  every book row that refers to it go in one step.
\<close>

definition Author_delete :: "store \<Rightarrow> Author \<Rightarrow> store" where
  "Author_delete s a =
     s\<lparr>Author_objects := filter (\<lambda>x. author_pk x \<noteq> author_pk a) (Author_objects s),
       Book_objects := filter (\<lambda>b. author_id b \<noteq> author_pk a) (Book_objects s)\<rparr>"

definition Book_delete :: "store \<Rightarrow> Book \<Rightarrow> store" where
  "Book_delete s b = s\<lparr>Book_objects := filter (\<lambda>x. book_pk x \<noteq> book_pk b) (Book_objects s)\<rparr>"

text \<open>\<^verbatim>\<open>Book.objects.all().delete()\<close> and \<^verbatim>\<open>Author.objects.all().delete()\<close> (which cascades).\<close>

definition Book_objects_all_delete :: "store \<Rightarrow> store" where
  "Book_objects_all_delete s = s\<lparr>Book_objects := []\<rparr>"

definition Author_objects_all_delete :: "store \<Rightarrow> store" where
  "Author_objects_all_delete s =
     s\<lparr>Author_objects := [],
       Book_objects := filter (\<lambda>b. author_id b \<notin> author_pk ` set (Author_objects s)) (Book_objects s)\<rparr>"

text \<open>\<open>book.author\<close>: the row the foreign key names.\<close>

definition Book_author :: "store \<Rightarrow> Book \<Rightarrow> Author option" where
  "Book_author s b = find (\<lambda>a. author_pk a = author_id b) (Author_objects s)"

text \<open>
  \<open>author.books.all()\<close> (\<^verbatim>\<open>related_name='books'\<close>): the books that refer to the author, in
  \<open>Book\<close>'s \<^verbatim>\<open>Meta.ordering = ['title']\<close>.
\<close>

definition Author_books :: "store \<Rightarrow> Author \<Rightarrow> Book list" where
  "Author_books s a = sort_key title (filter (\<lambda>b. author_id b = author_pk a) (Book_objects s))"

section \<open>The wire shapes: serializers.py\<close>

datatype wire =
    WNull
  | WInt int
  | WStr string
  | WDate date
  | WList "wire list"
  | WObj "(string \<times> wire) list"

definition keys :: "wire \<Rightarrow> string list" where
  "keys w = (case w of WObj kvs \<Rightarrow> map fst kvs | _ \<Rightarrow> [])"

definition field_of :: "wire \<Rightarrow> string \<Rightarrow> wire option" where
  "field_of w k = (case w of WObj kvs \<Rightarrow> map_of kvs k | _ \<Rightarrow> None)"

text \<open>\<^verbatim>\<open>BookSummarySerializer\<close>: \<^verbatim>\<open>fields = ['id', 'title', 'published_date', 'isbn']\<close>.\<close>

definition BookSummarySerializer :: "Book \<Rightarrow> wire" where
  "BookSummarySerializer b =
     WObj [(''id'', WInt (book_pk b)),
           (''title'', WStr (title b)),
           (''published_date'', WDate (published_date b)),
           (''isbn'', WStr (isbn b))]"

text \<open>
  \<^verbatim>\<open>AuthorSerializer\<close>: \<^verbatim>\<open>fields = ['id', 'name', 'birth_date', 'country', 'books']\<close> with
  \<^verbatim>\<open>books = BookSummarySerializer(many=True, read_only=True)\<close> over \<open>author.books\<close>.
\<close>

definition AuthorSerializer :: "store \<Rightarrow> Author \<Rightarrow> wire" where
  "AuthorSerializer s a =
     WObj [(''id'', WInt (author_pk a)),
           (''name'', WStr (name a)),
           (''birth_date'', (case birth_date a of None \<Rightarrow> WNull | Some d \<Rightarrow> WDate d)),
           (''country'', WStr (country a)),
           (''books'', WList (map BookSummarySerializer (Author_books s a)))]"

text \<open>
  \<^verbatim>\<open>BookSerializer\<close>: \<^verbatim>\<open>fields = ['id', 'title', 'author', 'author_id', 'published_date', 'isbn']\<close>
  where \<open>author\<close> is \<^verbatim>\<open>AuthorSerializer(read_only=True)\<close> and \<open>author_id\<close> is write-only, so it
  is absent from the output. Reading \<open>book.author\<close> on a dangling key raises.
\<close>

definition BookSerializer :: "store \<Rightarrow> Book \<Rightarrow> error + wire" where
  "BookSerializer s b =
     (case Book_author s b of
        None \<Rightarrow> Inl ObjectDoesNotExist
      | Some a \<Rightarrow>
          Inr (WObj [(''id'', WInt (book_pk b)),
                     (''title'', WStr (title b)),
                     (''author'', AuthorSerializer s a),
                     (''published_date'', WDate (published_date b)),
                     (''isbn'', WStr (isbn b))]))"

section \<open>The API: viewsets.py\<close>

text \<open>
  \<^verbatim>\<open>AuthorViewSet.queryset = Author.objects.all()\<close> and
  \<^verbatim>\<open>BookViewSet.queryset = Book.objects.select_related('author').all()\<close>; the latter joins
  each book with its author, so a book whose author is missing is not in it.
\<close>

definition AuthorViewSet_queryset :: "store \<Rightarrow> Author list" where
  "AuthorViewSet_queryset s = Author_objects s"

definition BookViewSet_queryset :: "store \<Rightarrow> Book list" where
  "BookViewSet_queryset s = filter (\<lambda>b. Book_author s b \<noteq> None) (Book_objects s)"

text \<open>\<open>retrieve\<close>: \<open>get_object\<close> looks the key up in the queryset, or answers not-found.\<close>

definition AuthorViewSet_retrieve :: "store \<Rightarrow> int \<Rightarrow> error + wire" where
  "AuthorViewSet_retrieve s pk =
     (case find (\<lambda>a. author_pk a = pk) (AuthorViewSet_queryset s) of
        None \<Rightarrow> Inl NotFound
      | Some a \<Rightarrow> Inr (AuthorSerializer s a))"

definition BookViewSet_retrieve :: "store \<Rightarrow> int \<Rightarrow> error + wire" where
  "BookViewSet_retrieve s pk =
     (case find (\<lambda>b. book_pk b = pk) (BookViewSet_queryset s) of
        None \<Rightarrow> Inl NotFound
      | Some b \<Rightarrow> BookSerializer s b)"

text \<open>\<open>destroy\<close>: \<open>get_object\<close>, then \<open>instance.delete()\<close>.\<close>

definition AuthorViewSet_destroy :: "store \<Rightarrow> int \<Rightarrow> error + store" where
  "AuthorViewSet_destroy s pk =
     (case find (\<lambda>a. author_pk a = pk) (AuthorViewSet_queryset s) of
        None \<Rightarrow> Inl NotFound
      | Some a \<Rightarrow> Inr (Author_delete s a))"

definition BookViewSet_destroy :: "store \<Rightarrow> int \<Rightarrow> error + store" where
  "BookViewSet_destroy s pk =
     (case find (\<lambda>b. book_pk b = pk) (BookViewSet_queryset s) of
        None \<Rightarrow> Inl NotFound
      | Some b \<Rightarrow> Inr (Book_delete s b))"

subsection \<open>Searching and ordering a list\<close>

text \<open>
  \<open>icontains\<close>, the lookup \<^verbatim>\<open>SearchFilter\<close> uses for a plain search field: the term occurs in
  the column as a contiguous substring, letters A to Z compared without case.
\<close>

definition ascii_lower :: "char \<Rightarrow> char" where
  "ascii_lower c =
     (case map_of (zip ''ABCDEFGHIJKLMNOPQRSTUVWXYZ'' ''abcdefghijklmnopqrstuvwxyz'') c of
        None \<Rightarrow> c
      | Some l \<Rightarrow> l)"

definition icontains :: "string \<Rightarrow> string \<Rightarrow> bool" where
  "icontains t s = sublist (map ascii_lower t) (map ascii_lower s)"

text \<open>Python's \<open>str.isspace\<close> on the characters below 256, and \<open>str.split()\<close>.\<close>

definition isspace :: "char \<Rightarrow> bool" where
  "isspace c \<longleftrightarrow>
     c \<in> set [CHR 0x09, CHR 0x0A, CHR 0x0B, CHR 0x0C, CHR 0x0D, CHR 0x1C, CHR 0x1D, CHR 0x1E,
              CHR 0x1F, CHR 0x20, CHR 0x85, CHR 0xA0]"

fun split_acc :: "string \<Rightarrow> string \<Rightarrow> string list" where
  "split_acc cur [] = (if cur = [] then [] else [rev cur])"
| "split_acc cur (c # cs) =
     (if isspace c then (if cur = [] then split_acc [] cs else rev cur # split_acc [] cs)
      else split_acc (c # cur) cs)"

definition str_split :: "string \<Rightarrow> string list" where
  "str_split s = split_acc [] s"

text \<open>
  \<^verbatim>\<open>SearchFilter.get_search_terms\<close>: the \<open>search\<close> parameter (the empty string when absent)
  loses its NUL characters, has its commas turned into spaces and is split at white
  space. (Later releases of the framework keep a quoted phrase together and reject a NUL
  character; the statements below about one plain word leave both out.)
\<close>

definition get_search_terms :: "string \<Rightarrow> string list" where
  "get_search_terms params =
     str_split (map (\<lambda>c. if c = CHR '','' then CHR '' '' else c) (filter (\<lambda>c. c \<noteq> CHR 0x00) params))"

text \<open>
  \<^verbatim>\<open>SearchFilter.filter_queryset\<close>: with no search field or no term the queryset is
  returned as it is; otherwise a row stays when every term is contained in at least one
  of the search fields.
\<close>

definition SearchFilter :: "('r \<Rightarrow> string) list \<Rightarrow> string \<Rightarrow> 'r list \<Rightarrow> 'r list" where
  "SearchFilter search_fields search queryset =
     (let search_terms = get_search_terms search
      in if search_fields = [] \<or> search_terms = [] then queryset
         else filter (\<lambda>r. list_all (\<lambda>t. list_ex (\<lambda>f. icontains t (f r)) search_fields) search_terms)
                queryset)"


definition author__name :: "store \<Rightarrow> Book \<Rightarrow> string" where
  "author__name s b = (case Book_author s b of None \<Rightarrow> [] | Some a \<Rightarrow> name a)"

definition BookViewSet_search_fields :: "store \<Rightarrow> (Book \<Rightarrow> string) list" where
  "BookViewSet_search_fields s = [title, author__name s, isbn]"


definition BookViewSet_filter_queryset :: "store \<Rightarrow> string \<Rightarrow> Book list" where
  "BookViewSet_filter_queryset s search =
     sort_key title (SearchFilter (BookViewSet_search_fields s) search (BookViewSet_queryset s))"

fun serialize_many :: "('r \<Rightarrow> error + wire) \<Rightarrow> 'r list \<Rightarrow> error + wire list" where
  "serialize_many f [] = Inr []"
| "serialize_many f (x # xs) =
     (case f x of
        Inl e \<Rightarrow> Inl e
      | Inr w \<Rightarrow> (case serialize_many f xs of Inl e \<Rightarrow> Inl e | Inr ws \<Rightarrow> Inr (w # ws)))"


definition BookViewSet_list :: "store \<Rightarrow> string \<Rightarrow> error + wire list" where
  "BookViewSet_list s search = serialize_many (BookSerializer s) (BookViewSet_filter_queryset s search)"


subsection \<open>Validating and writing a payload\<close>

text \<open>
  A member of a JSON object as a write sees it: the key is missing, its value is \<open>null\<close>,
  or it has a value of the field's type.
\<close>

datatype 'a field = Absent | Null | Given 'a

record author_payload =
  p_name :: "string field"
  p_birth_date :: "date field"
  p_country :: "string field"

record book_payload =
  p_title :: "string field"
  p_author_id :: "int field"
  p_published_date :: "date field"
  p_isbn :: "string field"

text \<open>Python's \<open>str.strip()\<close>.\<close>

definition strip :: "string \<Rightarrow> string" where
  "strip s = rev (dropWhile isspace (rev (dropWhile isspace s)))"

text \<open>
  The serializer fields a \<^verbatim>\<open>ModelSerializer\<close> derives from the model columns. Each returns
  the error codes of the field, or \<open>None\<close> when the field is skipped (a missing key that is
  not required, or any missing key of a partial update), or the validated value.

  A character field trims white space, rejects a blank value unless the column has
  \<open>blank=True\<close>, and then runs its validators, collecting every failure: the ones passed
  in (the uniqueness check of a \<open>unique=True\<close> column), the column's \<open>max_length\<close>, and the
  ban on NUL characters.
\<close>

definition CharField_run_validation ::
    "bool \<Rightarrow> bool \<Rightarrow> bool \<Rightarrow> nat \<Rightarrow> (string \<Rightarrow> code list) \<Rightarrow> string field \<Rightarrow> code list + string option" where
  "CharField_run_validation partial required allow_blank max_length validators data =
     (case data of
        Absent \<Rightarrow> if partial then Inr None else if required then Inl [Required] else Inr None
      | Null \<Rightarrow> Inl [IsNull]
      | Given v \<Rightarrow>
          if strip v = [] then (if allow_blank then Inr (Some []) else Inl [Blank])
          else
            (let value = strip v;
                 errors = validators value
                        @ (if max_length < length value then [MaxLength] else [])
                        @ (if CHR 0x00 \<in> set value then [NullCharacters] else [])
             in if errors = [] then Inr (Some value) else Inl errors))"

definition DateField_run_validation ::
    "bool \<Rightarrow> bool \<Rightarrow> bool \<Rightarrow> date field \<Rightarrow> code list + date option option" where
  "DateField_run_validation partial required allow_null data =
     (case data of
        Absent \<Rightarrow> if partial then Inr None else if required then Inl [Required] else Inr None
      | Null \<Rightarrow> if allow_null then Inr (Some None) else Inl [IsNull]
      | Given d \<Rightarrow> Inr (Some (Some d)))"

text \<open>
  \<^verbatim>\<open>PrimaryKeyRelatedField(queryset=Author.objects.all(), source='author', write_only=True)\<close>:
  the key is looked up in the queryset; a key of no row is the failure \<open>does_not_exist\<close>.
\<close>

definition PrimaryKeyRelatedField_run_validation ::
    "bool \<Rightarrow> Author list \<Rightarrow> int field \<Rightarrow> code list + Author option" where
  "PrimaryKeyRelatedField_run_validation partial queryset data =
     (case data of
        Absent \<Rightarrow> if partial then Inr None else Inl [Required]
      | Null \<Rightarrow> Inl [IsNull]
      | Given pk \<Rightarrow>
          (case find (\<lambda>a. author_pk a = pk) queryset of
             None \<Rightarrow> Inl [DoesNotExist]
           | Some a \<Rightarrow> Inr (Some a)))"

text \<open>
  \<^verbatim>\<open>UniqueValidator(queryset=Book.objects)\<close> on \<open>isbn\<close>: the value must not be the isbn of a
  stored book other than the instance being updated.
\<close>

definition UniqueValidator :: "store \<Rightarrow> Book option \<Rightarrow> string \<Rightarrow> code list" where
  "UniqueValidator s instance value =
     (if value \<in> isbn ` set (filter (\<lambda>b. case instance of None \<Rightarrow> True
                                                          | Some x \<Rightarrow> book_pk b \<noteq> book_pk x)
                                     (Book_objects s))
      then [Unique] else [])"

definition errors_of :: "string \<Rightarrow> code list + 'a \<Rightarrow> (string \<times> code) list" where
  "errors_of field_name r = (case r of Inl cs \<Rightarrow> map (Pair field_name) cs | Inr _ \<Rightarrow> [])"

text \<open>
  \<open>is_valid\<close>: every writable field is validated in the order of \<^verbatim>\<open>Meta.fields\<close> and the
  failures of all of them are reported together; nothing has been written yet.
\<close>

definition AuthorSerializer_is_valid ::
    "bool \<Rightarrow> author_payload \<Rightarrow> error + (string option \<times> date option option \<times> string option)" where
  "AuthorSerializer_is_valid partial p =
     (let n = CharField_run_validation partial True False 255 (\<lambda>_. []) (p_name p);
          d = DateField_run_validation partial False True (p_birth_date p);
          c = CharField_run_validation partial False True 100 (\<lambda>_. []) (p_country p)
      in case (n, d, c) of
           (Inr n', Inr d', Inr c') \<Rightarrow> Inr (n', d', c')
         | _ \<Rightarrow> Inl (ValidationError
                      (errors_of ''name'' n @ errors_of ''birth_date'' d @ errors_of ''country'' c)))"

definition BookSerializer_is_valid ::
    "store \<Rightarrow> Book option \<Rightarrow> bool \<Rightarrow> book_payload \<Rightarrow>
       error + (string option \<times> Author option \<times> date option option \<times> string option)" where
  "BookSerializer_is_valid s instance partial p =
     (let t = CharField_run_validation partial True False 255 (\<lambda>_. []) (p_title p);
          a = PrimaryKeyRelatedField_run_validation partial (Author_objects s) (p_author_id p);
          d = DateField_run_validation partial True False (p_published_date p);
          i = CharField_run_validation partial True False 13 (UniqueValidator s instance) (p_isbn p)
      in case (t, a, d, i) of
           (Inr t', Inr a', Inr d', Inr i') \<Rightarrow> Inr (t', a', d', i')
         | _ \<Rightarrow> Inl (ValidationError
                      (errors_of ''title'' t @ errors_of ''author_id'' a
                       @ errors_of ''published_date'' d @ errors_of ''isbn'' i)))"

text \<open>
  \<open>create\<close>: validate, then \<open>Model.objects.create(**validated_data)\<close> (a column without a
  validated value takes the model's default: no date, the empty string), then answer with
  the shape of the new row.
\<close>

definition AuthorViewSet_create :: "store \<Rightarrow> author_payload \<Rightarrow> error + (wire \<times> store)" where
  "AuthorViewSet_create s p =
     (case AuthorSerializer_is_valid False p of
        Inl e \<Rightarrow> Inl e
      | Inr (n, d, c) \<Rightarrow>
          (case Author_objects_create s None
                  (Some (case n of None \<Rightarrow> [] | Some v \<Rightarrow> v))
                  (case d of None \<Rightarrow> None | Some v \<Rightarrow> v)
                  (Some (case c of None \<Rightarrow> [] | Some v \<Rightarrow> v)) of
             Inl e \<Rightarrow> Inl e
           | Inr (a, s') \<Rightarrow> Inr (AuthorSerializer s' a, s')))"

definition BookViewSet_create :: "store \<Rightarrow> book_payload \<Rightarrow> error + (wire \<times> store)" where
  "BookViewSet_create s p =
     (case BookSerializer_is_valid s None False p of
        Inl e \<Rightarrow> Inl e
      | Inr (t, a, d, i) \<Rightarrow>
          (case Book_objects_create s t a (case d of None \<Rightarrow> None | Some v \<Rightarrow> v) i of
             Inl e \<Rightarrow> Inl e
           | Inr (b, s') \<Rightarrow>
               (case BookSerializer s' b of Inl e \<Rightarrow> Inl e | Inr w \<Rightarrow> Inr (w, s'))))"

text \<open>
  \<open>update\<close> (\<open>partial = False\<close>) and \<open>partial_update\<close> (\<open>partial = True\<close>): \<open>get_object\<close>,
  validate against the instance, then assign the validated values and save the row.
\<close>

definition BookViewSet_update :: "store \<Rightarrow> bool \<Rightarrow> int \<Rightarrow> book_payload \<Rightarrow> error + (wire \<times> store)" where
  "BookViewSet_update s partial pk p =
     (case find (\<lambda>b. book_pk b = pk) (BookViewSet_queryset s) of
        None \<Rightarrow> Inl NotFound
      | Some instance \<Rightarrow>
          (case BookSerializer_is_valid s (Some instance) partial p of
             Inl e \<Rightarrow> Inl e
           | Inr (t, a, d, i) \<Rightarrow>
               (let b = instance
                      \<lparr>title := (case t of None \<Rightarrow> title instance | Some v \<Rightarrow> v),
                       author_id := (case a of None \<Rightarrow> author_id instance | Some x \<Rightarrow> author_pk x),
                       published_date :=
                         (case d of Some (Some v) \<Rightarrow> v | _ \<Rightarrow> published_date instance),
                       isbn := (case i of None \<Rightarrow> isbn instance | Some v \<Rightarrow> v)\<rparr>;
                    s' = s\<lparr>Book_objects :=
                             map (\<lambda>x. if book_pk x = pk then b else x) (Book_objects s)\<rparr>
                in case BookSerializer s' b of Inl e \<Rightarrow> Inl e | Inr w \<Rightarrow> Inr (w, s'))))"

section \<open>The bulk loader: fetch_data.py\<close>

text \<open>
  The parsed fixture document. An entry is a JSON object, read by subscripting: each of
  its members is missing, \<open>null\<close>, or a value of the type the model column holds. The
  document itself is subscripted for \<open>authors\<close> and \<open>books\<close>.
\<close>

record author_data =
  ad_id :: "int field"
  ad_name :: "string field"
  ad_birth_date :: "date field"
  ad_country :: "string field"

record book_data =
  bd_title :: "string field"
  bd_author_id :: "int field"
  bd_published_date :: "date field"
  bd_isbn :: "string field"

record fixture =
  fx_authors :: "author_data list field"
  fx_books :: "book_data list field"

text \<open>\<open>d[k]\<close> on a dict from the document: a missing key raises \<open>KeyError\<close>, \<open>null\<close> is \<open>None\<close>.\<close>

definition getitem :: "string \<Rightarrow> 'a field \<Rightarrow> error + 'a option" where
  "getitem k member =
     (case member of
        Absent \<Rightarrow> Inl (KeyError (KStr k))
      | Null \<Rightarrow> Inr None
      | Given v \<Rightarrow> Inr (Some v))"

text \<open>\<open>authors[k]\<close> on the loader's own dict, whose keys are the created authors' ids.\<close>

definition authors_getitem :: "(int \<rightharpoonup> Author) \<Rightarrow> int option \<Rightarrow> error + Author" where
  "authors_getitem authors k =
     (case k of
        None \<Rightarrow> Inl (KeyError KNone)
      | Some i \<Rightarrow> (case authors i of None \<Rightarrow> Inl (KeyError (KInt i)) | Some a \<Rightarrow> Inr a))"

text \<open>
  The body of \<^verbatim>\<open>for author_data in data['authors']\<close>: the four subscripts are evaluated in
  the order written, then the row is created and entered into \<open>authors\<close> under its id.
\<close>

definition load_author ::
    "(int \<rightharpoonup> Author) \<Rightarrow> store \<Rightarrow> author_data \<Rightarrow> error + ((int \<rightharpoonup> Author) \<times> store)" where
  "load_author authors s author_data =
     (case getitem ''id'' (ad_id author_data) of Inl e \<Rightarrow> Inl e | Inr i \<Rightarrow>
      case getitem ''name'' (ad_name author_data) of Inl e \<Rightarrow> Inl e | Inr n \<Rightarrow>
      case getitem ''birth_date'' (ad_birth_date author_data) of Inl e \<Rightarrow> Inl e | Inr d \<Rightarrow>
      case getitem ''country'' (ad_country author_data) of Inl e \<Rightarrow> Inl e | Inr c \<Rightarrow>
      case Author_objects_create s i n d c of Inl e \<Rightarrow> Inl e | Inr (author, s') \<Rightarrow>
        Inr (authors(author_pk author \<mapsto> author), s'))"

text \<open>
  The body of \<^verbatim>\<open>for book_data in data['books']\<close>: \<open>title\<close>, then \<open>author_id\<close> and its lookup in
  \<open>authors\<close>, then \<open>published_date\<close> and \<open>isbn\<close>, then the row is created.
\<close>

definition load_book :: "(int \<rightharpoonup> Author) \<Rightarrow> store \<Rightarrow> book_data \<Rightarrow> error + store" where
  "load_book authors s book_data =
     (case getitem ''title'' (bd_title book_data) of Inl e \<Rightarrow> Inl e | Inr t \<Rightarrow>
      case getitem ''author_id'' (bd_author_id book_data) of Inl e \<Rightarrow> Inl e | Inr k \<Rightarrow>
      case authors_getitem authors k of Inl e \<Rightarrow> Inl e | Inr author \<Rightarrow>
      case getitem ''published_date'' (bd_published_date book_data) of Inl e \<Rightarrow> Inl e | Inr d \<Rightarrow>
      case getitem ''isbn'' (bd_isbn book_data) of Inl e \<Rightarrow> Inl e | Inr i \<Rightarrow>
      case Book_objects_create s t (Some author) d i of Inl e \<Rightarrow> Inl e | Inr (book, s') \<Rightarrow>
        Inr s')"

text \<open>
  The two loops. Nothing wraps the command in a transaction: an exception ends it with
  the rows written so far in place, so the loops return the store they reached together
  with the exception, if any.
\<close>

fun load_authors ::
    "author_data list \<Rightarrow> (int \<rightharpoonup> Author) \<Rightarrow> store \<Rightarrow> error option \<times> (int \<rightharpoonup> Author) \<times> store" where
  "load_authors [] authors s = (None, authors, s)"
| "load_authors (author_data # rest) authors s =
     (case load_author authors s author_data of
        Inl e \<Rightarrow> (Some e, authors, s)
      | Inr (authors', s') \<Rightarrow> load_authors rest authors' s')"

fun load_books :: "book_data list \<Rightarrow> (int \<rightharpoonup> Author) \<Rightarrow> store \<Rightarrow> error option \<times> store" where
  "load_books [] authors s = (None, s)"
| "load_books (book_data # rest) authors s =
     (case load_book authors s book_data of
        Inl e \<Rightarrow> (Some e, s)
      | Inr s' \<Rightarrow> load_books rest authors s')"

text \<open>
  \<^verbatim>\<open>Command.handle\<close> on the parsed document: clear the books, clear the authors, create the
  authors into a fresh \<open>authors\<close> dict, create the books.
\<close>

definition handle :: "store \<Rightarrow> fixture \<Rightarrow> error option \<times> store" where
  "handle s0 data =
     (let s1 = Book_objects_all_delete s0;
          s2 = Author_objects_all_delete s1
      in case fx_authors data of
           Absent \<Rightarrow> (Some (KeyError (KStr ''authors'')), s2)
         | Null \<Rightarrow> (Some TypeError, s2)
         | Given author_entries \<Rightarrow>
             (case load_authors author_entries Map.empty s2 of
                (Some e, authors, s3) \<Rightarrow> (Some e, s3)
              | (None, authors, s3) \<Rightarrow>
                  (case fx_books data of
                     Absent \<Rightarrow> (Some (KeyError (KStr ''books'')), s3)
                   | Null \<Rightarrow> (Some TypeError, s3)
                   | Given book_entries \<Rightarrow> load_books book_entries authors s3)))"

text \<open>The loader's dict files every author under its own id.\<close>

definition dict_ok :: "(int \<rightharpoonup> Author) \<Rightarrow> bool" where
  "dict_ok authors \<longleftrightarrow> (\<forall>k a. authors k = Some a \<longrightarrow> author_pk a = k)"

text \<open>How a created row relates to the entry it was created from.\<close>

definition author_from :: "Author \<Rightarrow> author_data \<Rightarrow> bool" where
  "author_from a ad \<longleftrightarrow>
     (ad_id ad = Given (author_pk a) \<or> ad_id ad = Null) \<and>
     ad_name ad = Given (name a) \<and>
     ad_birth_date ad = (case birth_date a of None \<Rightarrow> Null | Some d \<Rightarrow> Given d) \<and>
     ad_country ad = Given (country a)"

definition book_from :: "Book \<Rightarrow> book_data \<Rightarrow> bool" where
  "book_from b bd \<longleftrightarrow>
     bd_title bd = Given (title b) \<and>
     bd_author_id bd = Given (author_id b) \<and>
     bd_published_date bd = Given (published_date b) \<and>
     bd_isbn bd = Given (isbn b)"

definition complete_author_data :: "author_data \<Rightarrow> bool" where
  "complete_author_data ad \<longleftrightarrow>
     ad_id ad \<noteq> Absent \<and> ad_name ad \<noteq> Absent \<and> ad_birth_date ad \<noteq> Absent \<and> ad_country ad \<noteq> Absent"

definition complete_book_data :: "book_data \<Rightarrow> bool" where
  "complete_book_data bd \<longleftrightarrow>
     bd_title bd \<noteq> Absent \<and> bd_author_id bd \<noteq> Absent \<and> bd_published_date bd \<noteq> Absent \<and>
     bd_isbn bd \<noteq> Absent"

section \<open>Example catalog\<close>

definition tolkien :: Author where
  "tolkien = \<lparr>author_pk = 1, name = ''J.R.R. Tolkien'', birth_date = Some (Date 1892 1 3), country = ''UK''\<rparr>"

definition carpenter :: Author where
  "carpenter = \<lparr>author_pk = 2, name = ''Humphrey Carpenter'', birth_date = None, country = ''UK''\<rparr>"

definition hobbit :: Book where
  "hobbit = \<lparr>book_pk = 1, title = ''The Hobbit'', author_id = 1,
             published_date = Date 1937 9 21, isbn = ''9780547928227''\<rparr>"

definition silmarillion :: Book where
  "silmarillion = \<lparr>book_pk = 2, title = ''The Silmarillion'', author_id = 1,
                   published_date = Date 1977 9 15, isbn = ''9780618391110''\<rparr>"

definition biography :: Book where
  "biography = \<lparr>book_pk = 3, title = ''Tolkien: A Biography'', author_id = 2,
                published_date = Date 1977 5 5, isbn = ''9780618057023''\<rparr>"

definition library :: store where
  "library = \<lparr>Author_objects = [tolkien, carpenter],
              Book_objects = [hobbit, silmarillion, biography],
              author_seq = 2, book_seq = 3\<rparr>"

definition orphan_payload :: book_payload where
  "orphan_payload = \<lparr>p_title = Given ''The Lost Road'', p_author_id = Given 999,
                     p_published_date = Given (Date 1987 1 1), p_isbn = Given ''9780261102255''\<rparr>"

definition lewis_payload :: author_payload where
  "lewis_payload = \<lparr>p_name = Given ''C.S. Lewis'', p_birth_date = Given (Date 1898 11 29),
                     p_country = Given ''UK''\<rparr>"

definition padded_payload :: author_payload where
  "padded_payload = \<lparr>p_name = Given '' A'', p_birth_date = Absent, p_country = Absent\<rparr>"

text \<open>The fixture of the spec's scenario, and variants of it.\<close>

definition tolkien_data :: author_data where
  "tolkien_data = \<lparr>ad_id = Given 1, ad_name = Given ''J.R.R. Tolkien'',
                   ad_birth_date = Given (Date 1892 1 3), ad_country = Given ''UK''\<rparr>"

definition hobbit_data :: book_data where
  "hobbit_data = \<lparr>bd_title = Given ''The Hobbit'', bd_author_id = Given 1,
                  bd_published_date = Given (Date 1937 9 21), bd_isbn = Given ''9780547928227''\<rparr>"

definition sample_data :: fixture where
  "sample_data = \<lparr>fx_authors = Given [tolkien_data], fx_books = Given [hobbit_data]\<rparr>"

definition stray_book_data :: fixture where
  "stray_book_data =
     \<lparr>fx_authors = Given [tolkien_data],
      fx_books = Given [hobbit_data\<lparr>bd_author_id := Given 2\<rparr>]\<rparr>"

definition no_country_data :: fixture where
  "no_country_data =
     \<lparr>fx_authors = Given [tolkien_data\<lparr>ad_country := Absent\<rparr>], fx_books = Given [hobbit_data]\<rparr>"

definition no_date_data :: fixture where
  "no_date_data =
     \<lparr>fx_authors = Given [tolkien_data],
      fx_books = Given [hobbit_data\<lparr>bd_published_date := Absent\<rparr>]\<rparr>"

text \<open>The catalog after loading the scenario's fixture over the example catalog.\<close>

definition reloaded :: store where
  "reloaded = \<lparr>Author_objects = [tolkien], Book_objects = [hobbit\<lparr>book_pk := 4\<rparr>],
               author_seq = 2, book_seq = 4\<rparr>"

section \<open>Facts about the store\<close>

subsection \<open>Lookups by key\<close>

lemma find_None_pk: "k \<notin> f ` set xs \<Longrightarrow> find (\<lambda>x. f x = k) xs = None"
  by (induction xs) auto

lemma find_pk_Some:
  "k \<in> f ` set xs \<Longrightarrow> \<exists>x. find (\<lambda>y. f y = k) xs = Some x \<and> x \<in> set xs \<and> f x = k"
  by (induction xs) auto

lemma find_distinct_pk:
  "distinct (map f xs) \<Longrightarrow> x \<in> set xs \<Longrightarrow> find (\<lambda>y. f y = f x) xs = Some x"
  by (induction xs) (auto simp: image_iff)

lemma store_ok_library: "store_ok library"
  by (simp add: store_ok_def library_def tolkien_def carpenter_def hobbit_def silmarillion_def
      biography_def)

lemma fk_after_filter:
  assumes "\<forall>b\<in>set bs. g b \<in> f ` set as"
  shows "\<forall>b\<in>set (filter (\<lambda>b. g b \<noteq> k) bs). g b \<in> f ` set (filter (\<lambda>x. f x \<noteq> k) as)"
proof
  fix b assume "b \<in> set (filter (\<lambda>b. g b \<noteq> k) bs)"
  then have b: "b \<in> set bs" "g b \<noteq> k" by simp_all
  with assms obtain x where "x \<in> set as" "g b = f x" by (meson imageE)
  with b(2) have "x \<in> set (filter (\<lambda>x. f x \<noteq> k) as)" by simp
  with \<open>g b = f x\<close> show "g b \<in> f ` set (filter (\<lambda>x. f x \<noteq> k) as)" by (rule image_eqI)
qed

lemma store_ok_Author_delete: "store_ok s \<Longrightarrow> store_ok (Author_delete s a)"
  unfolding store_ok_def Author_delete_def
  using fk_after_filter [of "Book_objects s" author_id author_pk "Author_objects s" "author_pk a"]
  by (simp add: distinct_map_filter list_all_iff)

lemma distinct_map_eq:
  "distinct (map f xs) \<Longrightarrow> x \<in> set xs \<Longrightarrow> y \<in> set xs \<Longrightarrow> f x = f y \<Longrightarrow> x = y"
  by (simp add: distinct_map inj_on_def)

lemma BookViewSet_retrieve_NotFound:
  "pk \<notin> book_pk ` set (Book_objects s) \<Longrightarrow> BookViewSet_retrieve s pk = Inl NotFound"
proof -
  assume "pk \<notin> book_pk ` set (Book_objects s)"
  then have "pk \<notin> book_pk ` set (BookViewSet_queryset s)"
    by (auto simp: BookViewSet_queryset_def)
  then have "find (\<lambda>b. book_pk b = pk) (BookViewSet_queryset s) = None"
    by (simp add: find_None_pk)
  then show ?thesis by (simp add: BookViewSet_retrieve_def)
qed

lemma AuthorViewSet_retrieve_NotFound:
  "pk \<notin> author_pk ` set (Author_objects s) \<Longrightarrow> AuthorViewSet_retrieve s pk = Inl NotFound"
  by (simp add: AuthorViewSet_retrieve_def AuthorViewSet_queryset_def find_None_pk)

subsection \<open>Search terms and filters\<close>




lemma SearchFilter_filter:
  "SearchFilter fs q xs =
     filter (\<lambda>r. fs = [] \<or> list_all (\<lambda>t. list_ex (\<lambda>f. icontains t (f r)) fs) (get_search_terms q)) xs"
  by (simp add: SearchFilter_def Let_def)

lemma serialize_many_ok:
  "list_all (\<lambda>x. \<exists>w. f x = Inr w) xs \<Longrightarrow> \<exists>ws. serialize_many f xs = Inr ws \<and> map Inr ws = map f xs"
  by (induction xs) auto

lemma Tolkien_terms: "get_search_terms ''Tolkien'' = [''Tolkien'']"
  by code_simp


subsection \<open>Validation and fresh keys\<close>

lemma PrimaryKeyRelatedField_does_not_exist:
  "n \<notin> author_pk ` set qs \<Longrightarrow>
     PrimaryKeyRelatedField_run_validation partial qs (Given n) = Inl [DoesNotExist]"
  by (simp add: PrimaryKeyRelatedField_run_validation_def find_None_pk)

lemma BookSerializer_is_valid_unresolved:
  assumes "p_author_id p = Given n" "n \<notin> author_pk ` set (Author_objects s)"
  shows "\<exists>errs. BookSerializer_is_valid s instance partial p = Inl (ValidationError errs) \<and>
               (''author_id'', DoesNotExist) \<in> set errs"
proof -
  have a: "PrimaryKeyRelatedField_run_validation partial (Author_objects s) (p_author_id p)
             = Inl [DoesNotExist]"
    using assms by (simp add: PrimaryKeyRelatedField_does_not_exist)
  show ?thesis
    unfolding BookSerializer_is_valid_def Let_def a
    by (simp add: errors_of_def split: sum.splits)
qed

lemma AuthorSerializer_is_valid_Inr:
  assumes "AuthorSerializer_is_valid False p = Inr v"
  shows "\<exists>n. p_name p = Given n \<and> strip n \<noteq> [] \<and>
             v = (Some (strip n),
                  (case p_birth_date p of Absent \<Rightarrow> None | Null \<Rightarrow> Some None | Given d \<Rightarrow> Some (Some d)),
                  (case p_country p of Given c \<Rightarrow> Some (strip c) | _ \<Rightarrow> None))"
  using assms
  unfolding AuthorSerializer_is_valid_def CharField_run_validation_def
    DateField_run_validation_def Let_def
  by (cases "p_name p"; cases "p_birth_date p"; cases "p_country p")
     (auto split: if_splits sum.splits)

lemma find_snoc_fresh:
  "k \<notin> f ` set xs \<Longrightarrow> f a = k \<Longrightarrow> find (\<lambda>x. f x = k) (xs @ [a]) = Some a"
  by (induction xs) auto

lemma fresh_author_pk:
  assumes "store_ok s"
  shows "author_seq s + 1 \<notin> author_pk ` set (Author_objects s)"
    and "author_seq s + 1 \<notin> author_id ` set (Book_objects s)"
proof -
  have le: "\<forall>a \<in> set (Author_objects s). author_pk a \<le> author_seq s"
    and fk: "\<forall>b \<in> set (Book_objects s). author_id b \<in> author_pk ` set (Author_objects s)"
    using assms by (simp_all add: store_ok_def list_all_iff)
  show 1: "author_seq s + 1 \<notin> author_pk ` set (Author_objects s)"
  proof
    assume "author_seq s + 1 \<in> author_pk ` set (Author_objects s)"
    then obtain a where "a \<in> set (Author_objects s)" "author_pk a = author_seq s + 1"
      by (auto simp: image_iff)
    with le have "author_seq s + 1 \<le> author_seq s" by fastforce
    then show False by simp
  qed
  show "author_seq s + 1 \<notin> author_id ` set (Book_objects s)"
  proof
    assume "author_seq s + 1 \<in> author_id ` set (Book_objects s)"
    then obtain b where "b \<in> set (Book_objects s)" "author_id b = author_seq s + 1"
      by (auto simp: image_iff)
    from fk this(1) have "author_id b \<in> author_pk ` set (Author_objects s)" by (rule bspec)
    with \<open>author_id b = author_seq s + 1\<close> 1 show False by simp
  qed
qed

lemma store_ok_add_author:
  assumes ok: "store_ok s" and fresh: "author_pk a \<notin> author_pk ` set (Author_objects s)"
    and le: "author_pk a \<le> k" "author_seq s \<le> k"
  shows "store_ok (s\<lparr>Author_objects := Author_objects s @ [a], author_seq := k\<rparr>)"
proof -
  have "\<forall>x \<in> set (Author_objects s). author_pk x \<le> author_seq s"
    using ok by (simp add: store_ok_def list_all_iff)
  with le(2) have "\<forall>x \<in> set (Author_objects s). author_pk x \<le> k" by fastforce
  then show ?thesis
    using ok fresh le(1) by (simp add: store_ok_def list_all_iff)
qed

subsection \<open>Related books and the join\<close>

lemma set_Author_books:
  "set (Author_books s a) = {b \<in> set (Book_objects s). author_id b = author_pk a}"
  by (auto simp: Author_books_def)

lemma length_Author_books:
  "length (Author_books s a) = length (filter (\<lambda>b. author_id b = author_pk a) (Book_objects s))"
  by (simp add: Author_books_def)

lemma sorted_Author_books: "sorted (map title (Author_books s a))"
  by (simp add: Author_books_def)

lemma Book_author_Some:
  assumes "store_ok s" "b \<in> set (Book_objects s)"
  shows "\<exists>a. Book_author s b = Some a \<and> a \<in> set (Author_objects s) \<and> author_pk a = author_id b"
proof -
  from assms have "author_id b \<in> author_pk ` set (Author_objects s)"
    by (simp add: store_ok_def list_all_iff)
  then show ?thesis
    unfolding Book_author_def
    using find_pk_Some [of "author_id b" author_pk "Author_objects s"] by simp
qed

lemma BookViewSet_queryset_ok: "store_ok s \<Longrightarrow> BookViewSet_queryset s = Book_objects s"
proof -
  assume ok: "store_ok s"
  have "\<forall>b \<in> set (Book_objects s). Book_author s b \<noteq> None"
  proof
    fix b assume "b \<in> set (Book_objects s)"
    with ok Book_author_Some [of s b] show "Book_author s b \<noteq> None" by fastforce
  qed
  then show ?thesis by (simp add: BookViewSet_queryset_def)
qed

lemma Author_books_library: "Author_books library tolkien = [hobbit, silmarillion]"
  unfolding Author_books_def library_def tolkien_def hobbit_def silmarillion_def biography_def
  by code_simp

subsection \<open>The loader's steps and loops\<close>

lemma getitem_Inr: "getitem k m = Inr v \<Longrightarrow> m = (case v of None \<Rightarrow> Null | Some x \<Rightarrow> Given x)"
  by (cases m) (auto simp: getitem_def)

lemma getitem_Inr_present: "getitem k m = Inr v \<Longrightarrow> m \<noteq> Absent"
  by (cases m) (auto simp: getitem_def)

lemma getitem_Absent: "getitem k Absent = Inl (KeyError (KStr k))"
  by (simp add: getitem_def)

lemma getitem_present: "m \<noteq> Absent \<Longrightarrow> \<exists>v. getitem k m = Inr v"
  by (cases m) (auto simp: getitem_def)

lemma Author_objects_create_Inr:
  assumes "Author_objects_create s pk nm bd ctry = Inr (a, s')"
  shows "nm = Some (name a) \<and> ctry = Some (country a) \<and> bd = birth_date a \<and>
         (pk = Some (author_pk a) \<or> pk = None) \<and>
         Author_objects s' = Author_objects s @ [a] \<and> Book_objects s' = Book_objects s"
  using assms
  by (cases nm; cases ctry; cases pk)
     (auto simp: Author_objects_create_def Let_def split: if_splits)

lemma load_author_Inr:
  assumes "load_author authors s ad = Inr (authors', s')"
  shows "complete_author_data ad \<and>
         (\<exists>a. author_from a ad \<and> Author_objects s' = Author_objects s @ [a] \<and>
              Book_objects s' = Book_objects s \<and> authors' = authors(author_pk a \<mapsto> a))"
proof -
  from assms obtain i n d c a where
    g: "getitem ''id'' (ad_id ad) = Inr i" "getitem ''name'' (ad_name ad) = Inr n"
       "getitem ''birth_date'' (ad_birth_date ad) = Inr d"
       "getitem ''country'' (ad_country ad) = Inr c"
    and cr: "Author_objects_create s i n d c = Inr (a, s')"
    and au: "authors' = authors(author_pk a \<mapsto> a)"
    unfolding load_author_def by (auto split: sum.splits)
  note gi = g [THEN getitem_Inr]
  note ci = Author_objects_create_Inr [OF cr]
  have "complete_author_data ad"
    using g [THEN getitem_Inr_present] by (simp add: complete_author_data_def)
  moreover have "author_from a ad"
    unfolding author_from_def using gi ci by (auto split: option.splits)
  ultimately show ?thesis using ci au by blast
qed

lemma Book_objects_create_Inr:
  assumes "Book_objects_create s ttl auth pd isb = Inr (b, s')"
  shows "ttl = Some (title b) \<and> pd = Some (published_date b) \<and> isb = Some (isbn b) \<and>
         (\<exists>a. auth = Some a \<and> author_id b = author_pk a \<and>
              author_pk a \<in> author_pk ` set (Author_objects s)) \<and>
         Book_objects s' = Book_objects s @ [b] \<and> Author_objects s' = Author_objects s"
  using assms
  by (cases ttl; cases auth; cases pd; cases isb)
     (auto simp: Book_objects_create_def Let_def split: if_splits)

lemma authors_getitem_Inr:
  "authors_getitem authors k = Inr a \<Longrightarrow> \<exists>i. k = Some i \<and> authors i = Some a"
  by (cases k) (auto simp: authors_getitem_def split: option.splits)

lemma load_book_Inr:
  assumes "load_book authors s bd = Inr s'" and d: "dict_ok authors"
  shows "complete_book_data bd \<and>
         (\<exists>b. book_from b bd \<and> Book_objects s' = Book_objects s @ [b] \<and>
              Author_objects s' = Author_objects s \<and>
              author_id b \<in> dom authors \<and>
              author_id b \<in> author_pk ` set (Author_objects s))"
proof -
  from assms(1) obtain t k a dt i b where
    g: "getitem ''title'' (bd_title bd) = Inr t" "getitem ''author_id'' (bd_author_id bd) = Inr k"
       "getitem ''published_date'' (bd_published_date bd) = Inr dt"
       "getitem ''isbn'' (bd_isbn bd) = Inr i"
    and lk: "authors_getitem authors k = Inr a"
    and cr: "Book_objects_create s t (Some a) dt i = Inr (b, s')"
    unfolding load_book_def by (auto split: sum.splits)
  note gi = g [THEN getitem_Inr]
  note ci = Book_objects_create_Inr [OF cr]
  from authors_getitem_Inr [OF lk] obtain j where j: "k = Some j" "authors j = Some a" by blast
  with d have pk: "author_pk a = j" by (simp add: dict_ok_def)
  have ab: "author_id b = j" using ci pk by auto
  have "complete_book_data bd"
    using g [THEN getitem_Inr_present] by (simp add: complete_book_data_def)
  moreover have "book_from b bd"
    unfolding book_from_def using gi ci j(1) ab by (auto split: option.splits)
  moreover have "author_id b \<in> dom authors" using ab j(2) by auto
  moreover have "author_id b \<in> author_pk ` set (Author_objects s)" using ci by auto
  ultimately show ?thesis using ci by blast
qed

lemma load_authors_None:
  assumes "load_authors ads authors s = (None, authors', s')" and "dict_ok authors"
  shows "list_all complete_author_data ads \<and> dict_ok authors' \<and>
         (\<exists>as. Author_objects s' = Author_objects s @ as \<and> list_all2 author_from as ads \<and>
               dom authors' = dom authors \<union> author_pk ` set as) \<and>
         Book_objects s' = Book_objects s"
  using assms
proof (induction ads arbitrary: authors s)
  case Nil
  then show ?case by simp
next
  case (Cons ad ads)
  from Cons.prems(1) obtain au1 s1 where
    st: "load_author authors s ad = Inr (au1, s1)"
    and re: "load_authors ads au1 s1 = (None, authors', s')"
    by (auto split: sum.splits)
  from load_author_Inr [OF st] obtain a where a: "complete_author_data ad" "author_from a ad"
      "Author_objects s1 = Author_objects s @ [a]" "Book_objects s1 = Book_objects s"
      "au1 = authors(author_pk a \<mapsto> a)" by blast
  have d1: "dict_ok au1" using Cons.prems(2) a(5) by (simp add: dict_ok_def)
  from Cons.IH [OF re d1] obtain as where ih: "list_all complete_author_data ads" "dict_ok authors'"
      "Author_objects s' = Author_objects s1 @ as" "list_all2 author_from as ads"
      "dom authors' = dom au1 \<union> author_pk ` set as" "Book_objects s' = Book_objects s1"
    by blast
  have "Author_objects s' = Author_objects s @ (a # as)" using ih(3) a(3) by simp
  moreover have "list_all2 author_from (a # as) (ad # ads)" using ih(4) a(2) by simp
  moreover have "dom authors' = dom authors \<union> author_pk ` set (a # as)"
    using ih(5) a(5) by auto
  ultimately show ?case using a(1,4) ih(1,2,6) by (intro conjI exI [of _ "a # as"]) simp_all
qed

lemma load_books_None:
  assumes "load_books bds authors s = (None, s')" and "dict_ok authors"
  shows "list_all complete_book_data bds \<and>
         (\<exists>bs. Book_objects s' = Book_objects s @ bs \<and> list_all2 book_from bs bds \<and>
               list_all (\<lambda>b. author_id b \<in> dom authors \<and>
                            author_id b \<in> author_pk ` set (Author_objects s)) bs) \<and>
         Author_objects s' = Author_objects s"
  using assms
proof (induction bds arbitrary: s)
  case Nil
  then show ?case by simp
next
  case (Cons bd bds)
  from Cons.prems(1) obtain s1 where
    st: "load_book authors s bd = Inr s1"
    and re: "load_books bds authors s1 = (None, s')"
    by (auto split: sum.splits)
  from load_book_Inr [OF st Cons.prems(2)] obtain b where b: "complete_book_data bd" "book_from b bd"
      "Book_objects s1 = Book_objects s @ [b]" "Author_objects s1 = Author_objects s"
      "author_id b \<in> dom authors" "author_id b \<in> author_pk ` set (Author_objects s)" by blast
  from Cons.IH [OF re Cons.prems(2)] obtain bs where ih: "list_all complete_book_data bds"
      "Book_objects s' = Book_objects s1 @ bs" "list_all2 book_from bs bds"
      "list_all (\<lambda>b. author_id b \<in> dom authors \<and>
                     author_id b \<in> author_pk ` set (Author_objects s1)) bs"
      "Author_objects s' = Author_objects s1"
    by blast
  have "Book_objects s' = Book_objects s @ (b # bs)" using ih(2) b(3) by simp
  moreover have "list_all2 book_from (b # bs) (bd # bds)" using ih(3) b(2) by simp
  moreover have "list_all (\<lambda>b. author_id b \<in> dom authors \<and>
                     author_id b \<in> author_pk ` set (Author_objects s)) (b # bs)"
    using ih(4) b(4,5,6) by simp
  ultimately show ?case using b(1,4) ih(1,5) by (intro conjI exI [of _ "b # bs"]) simp_all
qed

lemma cleared:
  "Author_objects_all_delete (Book_objects_all_delete s) = s\<lparr>Author_objects := [], Book_objects := []\<rparr>"
  by (simp add: Author_objects_all_delete_def Book_objects_all_delete_def)

lemma cleared_twice:
  "s\<lparr>Author_objects := [], Book_objects := [], Author_objects := [], Book_objects := []\<rparr>
     = s\<lparr>Author_objects := [], Book_objects := []\<rparr>"
  by simp

lemma handle_cleared: "handle s data = handle (s\<lparr>Author_objects := [], Book_objects := []\<rparr>) data"
  unfolding handle_def Let_def cleared cleared_twice by (rule refl)

lemma handle_None:
  assumes "handle s data = (None, s')"
  shows "\<exists>ads bds. fx_authors data = Given ads \<and> fx_books data = Given bds \<and>
           list_all complete_author_data ads \<and> list_all complete_book_data bds \<and>
           list_all2 author_from (Author_objects s') ads \<and>
           list_all2 book_from (Book_objects s') bds \<and>
           list_all (\<lambda>b. author_id b \<in> author_pk ` set (Author_objects s')) (Book_objects s')"
proof -
  define s2 where "s2 = s\<lparr>Author_objects := [], Book_objects := []\<rparr>"
  have h: "handle s data =
     (case fx_authors data of
           Absent \<Rightarrow> (Some (KeyError (KStr ''authors'')), s2)
         | Null \<Rightarrow> (Some TypeError, s2)
         | Given author_entries \<Rightarrow>
             (case load_authors author_entries Map.empty s2 of
                (Some e, authors, s3) \<Rightarrow> (Some e, s3)
              | (None, authors, s3) \<Rightarrow>
                  (case fx_books data of
                     Absent \<Rightarrow> (Some (KeyError (KStr ''books'')), s3)
                   | Null \<Rightarrow> (Some TypeError, s3)
                   | Given book_entries \<Rightarrow> load_books book_entries authors s3)))"
    unfolding handle_def Let_def cleared s2_def by (rule refl)
  from assms obtain ads where ads: "fx_authors data = Given ads"
    by (cases "fx_authors data") (auto simp: h)
  obtain r authors s3 where la: "load_authors ads Map.empty s2 = (r, authors, s3)"
    by (metis prod_cases3)
  from assms have r: "r = None"
    by (cases r) (auto simp: h ads la)
  from assms obtain bds where bds: "fx_books data = Given bds"
    by (cases "fx_books data") (auto simp: h ads la r)
  from assms have lb: "load_books bds authors s3 = (None, s')"
    by (simp add: h ads la r bds)
  have d0: "dict_ok Map.empty" by (simp add: dict_ok_def)
  from load_authors_None [OF la [unfolded r] d0] obtain as where
    A: "list_all complete_author_data ads" "dict_ok authors"
       "Author_objects s3 = Author_objects s2 @ as" "list_all2 author_from as ads"
       "Book_objects s3 = Book_objects s2"
    by blast
  from load_books_None [OF lb A(2)] obtain bs where
    B: "list_all complete_book_data bds" "Book_objects s' = Book_objects s3 @ bs"
       "list_all2 book_from bs bds"
       "list_all (\<lambda>b. author_id b \<in> dom authors \<and>
                      author_id b \<in> author_pk ` set (Author_objects s3)) bs"
       "Author_objects s' = Author_objects s3"
    by blast
  have as: "Author_objects s' = as" using B(5) A(3) by (simp add: s2_def)
  have bs: "Book_objects s' = bs" using B(2) A(5) by (simp add: s2_def)
  have fk: "list_all (\<lambda>b. author_id b \<in> author_pk ` set (Author_objects s')) (Book_objects s')"
    using B(4) unfolding as bs B(5) [symmetric] by (simp add: list_all_iff as)
  show ?thesis
    using ads bds A(1,4) B(1,3) fk unfolding as bs by blast
qed

lemma list_all2_right_mem:
  "list_all2 P xs ys \<Longrightarrow> y \<in> set ys \<Longrightarrow> \<exists>x. x \<in> set xs \<and> P x y"
  by (induction rule: list_all2_induct) auto

lemma list_all2_left_mem:
  "list_all2 P xs ys \<Longrightarrow> x \<in> set xs \<Longrightarrow> \<exists>y. y \<in> set ys \<and> P x y"
  by (induction rule: list_all2_induct) auto

lemma handle_fails_stray_author_id:
  assumes ads: "fx_authors data = Given ads" and bds: "fx_books data = Given bds"
    and bd: "bd \<in> set bds"
    and stray: "bd_author_id bd \<notin> ad_id ` set ads" and nonull: "Null \<notin> ad_id ` set ads"
  shows "fst (handle s data) \<noteq> None"
proof
  assume "fst (handle s data) = None"
  then have "handle s data = (None, snd (handle s data))" by (simp add: prod_eq_iff)
  from handle_None [OF this] ads bds
  have A: "list_all2 author_from (Author_objects (snd (handle s data))) ads"
    and B: "list_all2 book_from (Book_objects (snd (handle s data))) bds"
    and F: "list_all (\<lambda>b. author_id b \<in> author_pk ` set (Author_objects (snd (handle s data))))
              (Book_objects (snd (handle s data)))"
    by auto
  from list_all2_right_mem [OF B bd] obtain b where
    b: "b \<in> set (Book_objects (snd (handle s data)))" "book_from b bd" by blast
  from F b(1) have "author_id b \<in> author_pk ` set (Author_objects (snd (handle s data)))"
    by (simp add: list_all_iff)
  then obtain a where a: "a \<in> set (Author_objects (snd (handle s data)))" "author_pk a = author_id b"
    by (auto simp: image_iff)
  from list_all2_left_mem [OF A a(1)] obtain ad where ad: "ad \<in> set ads" "author_from a ad"
    by blast
  from b(2) have e: "bd_author_id bd = Given (author_id b)" by (simp add: book_from_def)
  from ad(2) have "ad_id ad = Given (author_pk a) \<or> ad_id ad = Null" by (simp add: author_from_def)
  then show False
  proof
    assume "ad_id ad = Given (author_pk a)"
    with e a(2) have "bd_author_id bd = ad_id ad" by simp
    from this ad(1) have "bd_author_id bd \<in> ad_id ` set ads" by (rule image_eqI)
    with stray show False by simp
  next
    assume "ad_id ad = Null"
    then have "Null = ad_id ad" by simp
    from this ad(1) have "Null \<in> ad_id ` set ads" by (rule image_eqI)
    with nonull show False by simp
  qed
qed

lemma load_book_stray:
  "bd_title bd \<noteq> Absent \<Longrightarrow> bd_author_id bd = Given n \<Longrightarrow> authors n = None \<Longrightarrow>
     load_book authors st bd = Inl (KeyError (KInt n))"
  by (cases "bd_title bd") (simp_all add: load_book_def getitem_def authors_getitem_def)

lemma load_author_incomplete:
  assumes "\<not> complete_author_data ad"
  shows "\<exists>k. load_author authors st ad = Inl (KeyError (KStr k)) \<and>
             k \<in> set [''id'', ''name'', ''birth_date'', ''country'']"
proof (cases "ad_id ad = Absent")
  case True
  then show ?thesis by (simp add: load_author_def getitem_def)
next
  case i: False
  then obtain vi where vi: "getitem ''id'' (ad_id ad) = Inr vi" using getitem_present by blast
  show ?thesis
  proof (cases "ad_name ad = Absent")
    case True
    then show ?thesis by (simp add: load_author_def vi getitem_Absent)
  next
    case n: False
    then obtain vn where vn: "getitem ''name'' (ad_name ad) = Inr vn" using getitem_present by blast
    show ?thesis
    proof (cases "ad_birth_date ad = Absent")
      case True
      then show ?thesis by (simp add: load_author_def vi vn getitem_Absent)
    next
      case d: False
      then obtain vd where vd: "getitem ''birth_date'' (ad_birth_date ad) = Inr vd"
        using getitem_present by blast
      from assms i n d have "ad_country ad = Absent" by (simp add: complete_author_data_def)
      then show ?thesis by (simp add: load_author_def vi vn vd getitem_Absent)
    qed
  qed
qed

lemma load_author_no_birth_date:
  assumes "ad_id ad \<noteq> Absent" "ad_name ad \<noteq> Absent" "ad_birth_date ad = Absent"
  shows "load_author authors st ad = Inl (KeyError (KStr ''birth_date''))"
proof -
  from assms(1) obtain vi where vi: "getitem ''id'' (ad_id ad) = Inr vi" using getitem_present by blast
  from assms(2) obtain vn where vn: "getitem ''name'' (ad_name ad) = Inr vn" using getitem_present by blast
  show ?thesis by (simp add: load_author_def vi vn assms(3) getitem_Absent)
qed

lemma load_author_no_country:
  assumes "ad_id ad \<noteq> Absent" "ad_name ad \<noteq> Absent" "ad_birth_date ad \<noteq> Absent"
    "ad_country ad = Absent"
  shows "load_author authors st ad = Inl (KeyError (KStr ''country''))"
proof -
  from assms(1) obtain vi where vi: "getitem ''id'' (ad_id ad) = Inr vi" using getitem_present by blast
  from assms(2) obtain vn where vn: "getitem ''name'' (ad_name ad) = Inr vn" using getitem_present by blast
  from assms(3) obtain vd where vd: "getitem ''birth_date'' (ad_birth_date ad) = Inr vd"
    using getitem_present by blast
  show ?thesis by (simp add: load_author_def vi vn vd assms(4) getitem_Absent)
qed

lemma load_book_incomplete:
  assumes "\<not> complete_book_data bd"
  shows "\<exists>k. load_book authors st bd = Inl (KeyError k)"
proof (cases "bd_title bd = Absent")
  case True
  then show ?thesis by (simp add: load_book_def getitem_def)
next
  case t: False
  then obtain vt where vt: "getitem ''title'' (bd_title bd) = Inr vt" using getitem_present by blast
  show ?thesis
  proof (cases "bd_author_id bd = Absent")
    case True
    then show ?thesis by (simp add: load_book_def vt getitem_Absent)
  next
    case a: False
    then obtain va where va: "getitem ''author_id'' (bd_author_id bd) = Inr va"
      using getitem_present by blast
    show ?thesis
    proof (cases "authors_getitem authors va")
      case (Inl e)
      then obtain k where "e = KeyError k"
        by (cases va) (auto simp: authors_getitem_def split: option.splits)
      with Inl show ?thesis by (simp add: load_book_def vt va)
    next
      case (Inr au)
      show ?thesis
      proof (cases "bd_published_date bd = Absent")
        case True
        then show ?thesis by (simp add: load_book_def vt va Inr getitem_Absent)
      next
        case d: False
        then obtain vd where vd: "getitem ''published_date'' (bd_published_date bd) = Inr vd"
          using getitem_present by blast
        from assms t a d have "bd_isbn bd = Absent" by (simp add: complete_book_data_def)
        then show ?thesis by (simp add: load_book_def vt va Inr vd getitem_Absent)
      qed
    qed
  qed
qed

lemma handle_fails_incomplete_author:
  assumes "fx_authors data = Given ads" "ad \<in> set ads" "\<not> complete_author_data ad"
  shows "fst (handle s data) \<noteq> None"
proof
  assume "fst (handle s data) = None"
  then have "handle s data = (None, snd (handle s data))" by (simp add: prod_eq_iff)
  from handle_None [OF this] assms(1) have "list_all complete_author_data ads" by auto
  with assms(2,3) show False by (simp add: list_all_iff)
qed

lemma handle_fails_incomplete_book:
  assumes "fx_books data = Given bds" "bd \<in> set bds" "\<not> complete_book_data bd"
  shows "fst (handle s data) \<noteq> None"
proof
  assume "fst (handle s data) = None"
  then have "handle s data = (None, snd (handle s data))" by (simp add: prod_eq_iff)
  from handle_None [OF this] assms(1) have "list_all complete_book_data bds" by auto
  with assms(2,3) show False by (simp add: list_all_iff)
qed

subsection \<open>Every row operation and the loader keep the store consistent\<close>

lemma store_ok_empty: "store_ok empty_store"
  by (simp add: store_ok_def empty_store_def)

lemma store_ok_Book_delete: "store_ok s \<Longrightarrow> store_ok (Book_delete s b)"
  unfolding store_ok_def Book_delete_def
  by (simp add: distinct_map_filter list_all_iff)

lemma store_ok_Author_objects_create:
  assumes ok: "store_ok s" and cr: "Author_objects_create s pk nm bd ctry = Inr (a, s')"
  shows "store_ok s'"
proof (cases pk)
  case None
  with cr obtain n c where a: "a = \<lparr>author_pk = author_seq s + 1, name = n, birth_date = bd, country = c\<rparr>"
    and s': "s' = s\<lparr>Author_objects := Author_objects s @ [a], author_seq := author_seq s + 1\<rparr>"
    by (cases nm; cases ctry) (auto simp: Author_objects_create_def Let_def)
  have pk: "author_pk a = author_seq s + 1" by (simp add: a)
  show ?thesis
    unfolding s' using ok by (rule store_ok_add_author) (simp_all add: pk fresh_author_pk [OF ok])
next
  case (Some i)
  with cr obtain n c where a: "a = \<lparr>author_pk = i, name = n, birth_date = bd, country = c\<rparr>"
    and fr: "i \<notin> author_pk ` set (Author_objects s)"
    and s': "s' = s\<lparr>Author_objects := Author_objects s @ [a], author_seq := max (author_seq s) i\<rparr>"
    by (cases nm; cases ctry) (auto simp: Author_objects_create_def Let_def split: if_splits)
  have pk: "author_pk a = i" by (simp add: a)
  show ?thesis
    unfolding s' using ok by (rule store_ok_add_author) (simp_all add: pk fr)
qed

lemma store_ok_Book_objects_create:
  assumes ok: "store_ok s" and cr: "Book_objects_create s ttl auth pd isb = Inr (b, s')"
  shows "store_ok s'"
proof -
  from Book_objects_create_Inr [OF cr] obtain a where
    c: "isb = Some (isbn b)" "auth = Some a" "author_id b = author_pk a"
       "author_pk a \<in> author_pk ` set (Author_objects s)"
       "Book_objects s' = Book_objects s @ [b]" "Author_objects s' = Author_objects s"
    by blast
  from cr c(1,2) have fr: "isbn b \<notin> isbn ` set (Book_objects s)"
    by (cases ttl; cases pd) (auto simp: Book_objects_create_def split: if_splits)
  from cr have pk: "book_pk b = book_seq s + 1" and sq: "book_seq s' = book_seq s + 1"
    and aq: "author_seq s' = author_seq s"
    by (cases ttl; cases auth; cases pd; cases isb;
        auto simp: Book_objects_create_def Let_def split: if_splits)+
  have le: "\<forall>x \<in> set (Book_objects s). book_pk x \<le> book_seq s"
    using ok by (simp add: store_ok_def list_all_iff)
  have "book_seq s + 1 \<notin> book_pk ` set (Book_objects s)"
  proof
    assume "book_seq s + 1 \<in> book_pk ` set (Book_objects s)"
    then obtain x where "x \<in> set (Book_objects s)" "book_pk x = book_seq s + 1"
      by (auto simp: image_iff)
    with le have "book_seq s + 1 \<le> book_seq s" by fastforce
    then show False by simp
  qed
  moreover from le have "\<forall>x \<in> set (Book_objects s). book_pk x \<le> book_seq s + 1" by fastforce
  ultimately show ?thesis
    using ok fr c(3,4) by (simp add: store_ok_def list_all_iff c(5,6) pk sq aq)
qed

lemma store_ok_load_authors:
  "store_ok s \<Longrightarrow> load_authors ads authors s = (r, authors', s') \<Longrightarrow> store_ok s'"
proof (induction ads arbitrary: authors s)
  case Nil
  then show ?case by simp
next
  case (Cons ad ads)
  show ?case
  proof (cases "load_author authors s ad")
    case (Inl e)
    with Cons.prems show ?thesis by simp
  next
    case (Inr x)
    obtain au1 s1 where x: "x = (au1, s1)" by (cases x)
    from Inr x obtain i n d c a where "Author_objects_create s i n d c = Inr (a, s1)"
      unfolding load_author_def by (auto split: sum.splits)
    with Cons.prems(1) have "store_ok s1" by (rule store_ok_Author_objects_create)
    moreover from Cons.prems(2) Inr x have "load_authors ads au1 s1 = (r, authors', s')" by simp
    ultimately show ?thesis by (rule Cons.IH)
  qed
qed

lemma store_ok_load_books:
  "store_ok s \<Longrightarrow> load_books bds authors s = (r, s') \<Longrightarrow> store_ok s'"
proof (induction bds arbitrary: s)
  case Nil
  then show ?case by simp
next
  case (Cons bd bds)
  show ?case
  proof (cases "load_book authors s bd")
    case (Inl e)
    with Cons.prems show ?thesis by simp
  next
    case (Inr s1)
    then obtain t a d i b where "Book_objects_create s t (Some a) d i = Inr (b, s1)"
      unfolding load_book_def by (auto split: sum.splits)
    with Cons.prems(1) have "store_ok s1" by (rule store_ok_Book_objects_create)
    moreover from Cons.prems(2) Inr have "load_books bds authors s1 = (r, s')" by simp
    ultimately show ?thesis by (rule Cons.IH)
  qed
qed

lemma store_ok_handle: "store_ok (snd (handle s data))"
proof -
  define s2 where "s2 = s\<lparr>Author_objects := [], Book_objects := []\<rparr>"
  have ok2: "store_ok s2" by (simp add: store_ok_def s2_def)
  have h: "handle s data =
     (case fx_authors data of
           Absent \<Rightarrow> (Some (KeyError (KStr ''authors'')), s2)
         | Null \<Rightarrow> (Some TypeError, s2)
         | Given author_entries \<Rightarrow>
             (case load_authors author_entries Map.empty s2 of
                (Some e, authors, s3) \<Rightarrow> (Some e, s3)
              | (None, authors, s3) \<Rightarrow>
                  (case fx_books data of
                     Absent \<Rightarrow> (Some (KeyError (KStr ''books'')), s3)
                   | Null \<Rightarrow> (Some TypeError, s3)
                   | Given book_entries \<Rightarrow> load_books book_entries authors s3)))"
    unfolding handle_def Let_def cleared s2_def by (rule refl)
  show ?thesis
  proof (cases "fx_authors data")
    case Absent
    then show ?thesis by (simp add: h ok2)
  next
    case Null
    then show ?thesis by (simp add: h ok2)
  next
    case (Given ads)
    obtain r authors s3 where la: "load_authors ads Map.empty s2 = (r, authors, s3)"
      by (metis prod_cases3)
    from ok2 la have ok3: "store_ok s3" by (rule store_ok_load_authors)
    show ?thesis
    proof (cases r)
      case (Some e)
      then show ?thesis by (simp add: h Given la ok3)
    next
      case None
      show ?thesis
      proof (cases "fx_books data")
        case Absent
        then show ?thesis by (simp add: h Given la None ok3)
      next
        case Null
        then show ?thesis by (simp add: h Given la None ok3)
      next
        case (Given bds)
        obtain r' s4 where lb: "load_books bds authors s3 = (r', s4)" by (cases "load_books bds authors s3")
        from ok3 lb have "store_ok s4" by (rule store_ok_load_books)
        then show ?thesis by (simp add: h \<open>fx_authors data = Given ads\<close> la None Given lb)
      qed
    qed
  qed
qed

section \<open>Deleting an author\<close>

text \<open>
  Claim C1. Deleting an author through the API removes the author and every book that
  refers to it: afterwards retrieving the author, or any of its former books, answers
  not-found, while every other row is kept. The operation is all or nothing: for a key
  that is not an author's it answers not-found (and leaves the store as it is), and for
  an author's key the whole cascade has happened in the one resulting store.
\<close>

theorem C1_delete_author_cascades:
  assumes ok: "store_ok s"
  shows "(pk \<notin> author_pk ` set (Author_objects s) \<longrightarrow> AuthorViewSet_destroy s pk = Inl NotFound) \<and>
         (pk \<in> author_pk ` set (Author_objects s) \<longrightarrow>
            (\<exists>s'. AuthorViewSet_destroy s pk = Inr s' \<and>
                  store_ok s' \<and>
                  AuthorViewSet_retrieve s' pk = Inl NotFound \<and>
                  Author_objects s' = filter (\<lambda>a. author_pk a \<noteq> pk) (Author_objects s) \<and>
                  Book_objects s' = filter (\<lambda>b. author_id b \<noteq> pk) (Book_objects s) \<and>
                  (\<forall>b \<in> set (Book_objects s). author_id b = pk \<longrightarrow>
                      b \<notin> set (Book_objects s') \<and>
                      BookViewSet_retrieve s' (book_pk b) = Inl NotFound)))"
proof (intro conjI impI)
  assume "pk \<notin> author_pk ` set (Author_objects s)"
  then show "AuthorViewSet_destroy s pk = Inl NotFound"
    by (simp add: AuthorViewSet_destroy_def AuthorViewSet_queryset_def find_None_pk)
next
  assume "pk \<in> author_pk ` set (Author_objects s)"
  then obtain a where a: "find (\<lambda>y. author_pk y = pk) (Author_objects s) = Some a"
      "a \<in> set (Author_objects s)" "author_pk a = pk"
    using find_pk_Some [of pk author_pk "Author_objects s"] by blast
  define s' where "s' = Author_delete s a"
  have d: "AuthorViewSet_destroy s pk = Inr s'"
    by (simp add: AuthorViewSet_destroy_def AuthorViewSet_queryset_def a s'_def)
  have ok': "store_ok s'" using ok by (simp add: s'_def store_ok_Author_delete)
  have au: "Author_objects s' = filter (\<lambda>a. author_pk a \<noteq> pk) (Author_objects s)"
    by (simp add: s'_def Author_delete_def a)
  have bo: "Book_objects s' = filter (\<lambda>b. author_id b \<noteq> pk) (Book_objects s)"
    by (simp add: s'_def Author_delete_def a)
  have r: "AuthorViewSet_retrieve s' pk = Inl NotFound"
  proof (rule AuthorViewSet_retrieve_NotFound)
    show "pk \<notin> author_pk ` set (Author_objects s')" by (simp add: au image_iff)
  qed
  have bs: "\<forall>b \<in> set (Book_objects s). author_id b = pk \<longrightarrow>
              b \<notin> set (Book_objects s') \<and> BookViewSet_retrieve s' (book_pk b) = Inl NotFound"
  proof (intro ballI impI conjI)
    fix b assume b: "b \<in> set (Book_objects s)" "author_id b = pk"
    show "b \<notin> set (Book_objects s')" using b by (simp add: bo)
    have dist: "distinct (map book_pk (Book_objects s))" using ok by (simp add: store_ok_def)
    have "book_pk b \<notin> book_pk ` set (Book_objects s')"
    proof
      assume "book_pk b \<in> book_pk ` set (Book_objects s')"
      then obtain c where "c \<in> set (Book_objects s')" "book_pk c = book_pk b"
        by (auto simp: image_iff)
      then have c: "c \<in> set (Book_objects s)" "author_id c \<noteq> pk" "book_pk c = book_pk b"
        by (simp_all add: bo)
      from dist c(1) b(1) c(3) have "c = b" by (rule distinct_map_eq)
      with c(2) b(2) show False by simp
    qed
    then show "BookViewSet_retrieve s' (book_pk b) = Inl NotFound"
      by (rule BookViewSet_retrieve_NotFound)
  qed
  show "\<exists>s'. AuthorViewSet_destroy s pk = Inr s' \<and>
                  store_ok s' \<and>
                  AuthorViewSet_retrieve s' pk = Inl NotFound \<and>
                  Author_objects s' = filter (\<lambda>a. author_pk a \<noteq> pk) (Author_objects s) \<and>
                  Book_objects s' = filter (\<lambda>b. author_id b \<noteq> pk) (Book_objects s) \<and>
                  (\<forall>b \<in> set (Book_objects s). author_id b = pk \<longrightarrow>
                      b \<notin> set (Book_objects s') \<and>
                      BookViewSet_retrieve s' (book_pk b) = Inl NotFound)"
    by (intro exI [of _ s'] conjI) (fact d ok' r au bo bs)+
qed

theorem C1_delete_author_cascades_witness:
  "store_ok library \<and> 1 \<in> author_pk ` set (Author_objects library) \<and>
   (\<exists>s'. AuthorViewSet_destroy library 1 = Inr s' \<and>
         Author_objects s' = [carpenter] \<and> Book_objects s' = [biography] \<and>
         BookViewSet_retrieve s' (book_pk hobbit) = Inl NotFound \<and>
         BookViewSet_retrieve s' (book_pk silmarillion) = Inl NotFound)"
proof -
  have m: "1 \<in> author_pk ` set (Author_objects library)"
    by (simp add: library_def tolkien_def)
  have h: "hobbit \<in> set (Book_objects library)" "author_id hobbit = 1"
    and sl: "silmarillion \<in> set (Book_objects library)" "author_id silmarillion = 1"
    by (simp_all add: library_def hobbit_def silmarillion_def)
  have fa: "filter (\<lambda>a. author_pk a \<noteq> 1) (Author_objects library) = [carpenter]"
    by (simp add: library_def tolkien_def carpenter_def)
  have fb: "filter (\<lambda>b. author_id b \<noteq> 1) (Book_objects library) = [biography]"
    by (simp add: library_def hobbit_def silmarillion_def biography_def)
  from C1_delete_author_cascades [OF store_ok_library, of 1] m
  obtain s' where s': "AuthorViewSet_destroy library 1 = Inr s'"
      "Author_objects s' = filter (\<lambda>a. author_pk a \<noteq> 1) (Author_objects library)"
      "Book_objects s' = filter (\<lambda>b. author_id b \<noteq> 1) (Book_objects library)"
      "\<forall>b \<in> set (Book_objects library). author_id b = 1 \<longrightarrow>
          b \<notin> set (Book_objects s') \<and> BookViewSet_retrieve s' (book_pk b) = Inl NotFound"
    by blast
  from s'(4) h have "BookViewSet_retrieve s' (book_pk hobbit) = Inl NotFound" by blast
  moreover from s'(4) sl have "BookViewSet_retrieve s' (book_pk silmarillion) = Inl NotFound"
    by blast
  ultimately show ?thesis using store_ok_library m s'(1,2,3) fa fb by simp
qed

section \<open>The unique isbn\<close>

text \<open>
  Claim C2. Creating a book row whose isbn is the isbn of a stored book fails with
  \<open>IntegrityError\<close>, whatever the other columns are; the failure carries no new state, so
  the store stays as it was and no row is added. (Through the API the same collision is
  caught earlier, by the serializer's uniqueness validator.)
\<close>

theorem C2_duplicate_isbn_rejected:
  "i \<in> isbn ` set (Book_objects s) \<Longrightarrow> Book_objects_create s ttl auth pd (Some i) = Inl IntegrityError"
  by (simp add: Book_objects_create_def split: option.splits)

theorem C2_duplicate_isbn_rejected_witness:
  "isbn hobbit \<in> isbn ` set (Book_objects library) \<and>
   Book_objects_create library (Some ''Another'') (Some carpenter) (Some (Date 2001 1 1))
     (Some (isbn hobbit)) = Inl IntegrityError"
proof -
  have m: "isbn hobbit \<in> isbn ` set (Book_objects library)" by (simp add: library_def)
  from m C2_duplicate_isbn_rejected [OF m] show ?thesis by simp
qed

section \<open>A book payload with an unknown author\<close>

text \<open>
  Claim C3. A book payload whose \<open>author_id\<close> is the key of no stored author is rejected by
  validation, with the failure \<open>does_not_exist\<close> reported for \<open>author_id\<close> (the spec's
  reference error, a 400 response): on create, and on update and partial update of an
  existing book. Validation comes before the write, and the failure carries no new
  state, so no book is stored or changed. (An update aimed at a book that does not exist
  answers not-found before the payload is looked at.)
\<close>

theorem C3_unresolvable_author_id_rejected:
  assumes "p_author_id p = Given n" and "n \<notin> author_pk ` set (Author_objects s)"
  shows "(\<exists>errs. BookViewSet_create s p = Inl (ValidationError errs) \<and>
                 (''author_id'', DoesNotExist) \<in> set errs) \<and>
         (pk \<in> book_pk ` set (BookViewSet_queryset s) \<longrightarrow>
            (\<exists>errs. BookViewSet_update s partial pk p = Inl (ValidationError errs) \<and>
                    (''author_id'', DoesNotExist) \<in> set errs)) \<and>
         (pk \<notin> book_pk ` set (BookViewSet_queryset s) \<longrightarrow>
            BookViewSet_update s partial pk p = Inl NotFound)"
proof (intro conjI impI)
  from BookSerializer_is_valid_unresolved [OF assms, of None False]
  obtain errs where "BookSerializer_is_valid s None False p = Inl (ValidationError errs)"
      "(''author_id'', DoesNotExist) \<in> set errs" by blast
  then show "\<exists>errs. BookViewSet_create s p = Inl (ValidationError errs) \<and>
                 (''author_id'', DoesNotExist) \<in> set errs"
    by (simp add: BookViewSet_create_def)
next
  assume "pk \<in> book_pk ` set (BookViewSet_queryset s)"
  then obtain b where b: "find (\<lambda>y. book_pk y = pk) (BookViewSet_queryset s) = Some b"
    using find_pk_Some [of pk book_pk "BookViewSet_queryset s"] by blast
  from BookSerializer_is_valid_unresolved [OF assms, of "Some b" partial]
  obtain errs where "BookSerializer_is_valid s (Some b) partial p = Inl (ValidationError errs)"
      "(''author_id'', DoesNotExist) \<in> set errs" by blast
  then show "\<exists>errs. BookViewSet_update s partial pk p = Inl (ValidationError errs) \<and>
                    (''author_id'', DoesNotExist) \<in> set errs"
    by (simp add: BookViewSet_update_def b)
next
  assume "pk \<notin> book_pk ` set (BookViewSet_queryset s)"
  then show "BookViewSet_update s partial pk p = Inl NotFound"
    by (simp add: BookViewSet_update_def find_None_pk)
qed

theorem C3_unresolvable_author_id_rejected_witness:
  "p_author_id orphan_payload = Given 999 \<and>
   999 \<notin> author_pk ` set (Author_objects library) \<and>
   BookViewSet_create library orphan_payload = Inl (ValidationError [(''author_id'', DoesNotExist)]) \<and>
   1 \<in> book_pk ` set (BookViewSet_queryset library) \<and>
   (\<exists>errs. BookViewSet_update library True 1 orphan_payload = Inl (ValidationError errs) \<and>
           (''author_id'', DoesNotExist) \<in> set errs)"
proof -
  have a: "p_author_id orphan_payload = Given 999" by (simp add: orphan_payload_def)
  have n: "999 \<notin> author_pk ` set (Author_objects library)" by code_simp
  have m: "1 \<in> book_pk ` set (BookViewSet_queryset library)" by code_simp
  have c: "BookViewSet_create library orphan_payload
             = Inl (ValidationError [(''author_id'', DoesNotExist)])" by code_simp
  from C3_unresolvable_author_id_rejected [OF a n, of 1 True] m
  have "\<exists>errs. BookViewSet_update library True 1 orphan_payload = Inl (ValidationError errs) \<and>
           (''author_id'', DoesNotExist) \<in> set errs" by blast
  with a n m c show ?thesis by simp
qed

section \<open>The bulk loader replaces the catalog\<close>

text \<open>
  Claim C4. For every fixture document the loader first empties both tables, so its
  outcome is the one it has on an emptied catalog. When it finishes without an
  exception, the authors in the store are exactly the document's author entries, in
  order and under the ids the entries supply (an entry whose id is null gets a fresh
  one), the books are exactly the document's book entries, in order, and every book's
  \<open>author_id\<close> is the id of one of these authors. A book entry whose \<open>author_id\<close> is not
  the id of an author entry of the same document makes the load fail, even when the
  catalog held such an author before: the lookup is in the loader's own dict of the
  authors it has just created, and a key it does not hold is a \<open>KeyError\<close>.
\<close>

theorem C4_loader_replaces_catalog:
  "handle s data = handle (s\<lparr>Author_objects := [], Book_objects := []\<rparr>) data \<and>
   (handle s data = (None, s') \<longrightarrow>
      (\<exists>ads bds. fx_authors data = Given ads \<and> fx_books data = Given bds \<and>
         list_all2 author_from (Author_objects s') ads \<and>
         list_all2 book_from (Book_objects s') bds \<and>
         list_all (\<lambda>b. author_id b \<in> author_pk ` set (Author_objects s')) (Book_objects s'))) \<and>
   (fx_authors data = Given ads \<and> fx_books data = Given bds \<and> bd \<in> set bds \<and>
      bd_author_id bd \<notin> ad_id ` set ads \<and> Null \<notin> ad_id ` set ads \<longrightarrow>
        fst (handle s data) \<noteq> None) \<and>
   (bd_title bd \<noteq> Absent \<and> bd_author_id bd = Given n \<and> authors n = None \<longrightarrow>
      load_book authors st bd = Inl (KeyError (KInt n)))"
proof (intro conjI impI)
  show "handle s data = handle (s\<lparr>Author_objects := [], Book_objects := []\<rparr>) data"
    by (rule handle_cleared)
next
  assume "handle s data = (None, s')"
  from handle_None [OF this]
  show "\<exists>ads bds. fx_authors data = Given ads \<and> fx_books data = Given bds \<and>
         list_all2 author_from (Author_objects s') ads \<and>
         list_all2 book_from (Book_objects s') bds \<and>
         list_all (\<lambda>b. author_id b \<in> author_pk ` set (Author_objects s')) (Book_objects s')"
    by blast
next
  assume "fx_authors data = Given ads \<and> fx_books data = Given bds \<and> bd \<in> set bds \<and>
      bd_author_id bd \<notin> ad_id ` set ads \<and> Null \<notin> ad_id ` set ads"
  then show "fst (handle s data) \<noteq> None"
    using handle_fails_stray_author_id [of data ads bds bd s] by blast
next
  assume "bd_title bd \<noteq> Absent \<and> bd_author_id bd = Given n \<and> authors n = None"
  then show "load_book authors st bd = Inl (KeyError (KInt n))"
    using load_book_stray [of bd n authors st] by blast
qed

theorem C4_loader_replaces_catalog_witness:
  "handle library sample_data = (None, reloaded) \<and>
   list_all2 author_from (Author_objects reloaded) [tolkien_data] \<and>
   list_all2 book_from (Book_objects reloaded) [hobbit_data] \<and>
   carpenter \<in> set (Author_objects library) \<and> author_pk carpenter = 2 \<and>
   fst (handle library stray_book_data) \<noteq> None \<and>
   load_book (Map.empty(1 \<mapsto> tolkien)) library (hobbit_data\<lparr>bd_author_id := Given 2\<rparr>)
     = Inl (KeyError (KInt 2))"
proof -
  note C4 = C4_loader_replaces_catalog
  have e: "handle (library\<lparr>Author_objects := [], Book_objects := []\<rparr>) sample_data = (None, reloaded)"
    by code_simp
  from C4 [where s = library and data = sample_data, THEN conjunct1] e
  have hs: "handle library sample_data = (None, reloaded)" by simp
  from C4 [where s = library and data = sample_data and s' = reloaded,
      THEN conjunct2, THEN conjunct1] hs
  obtain ads bds where r: "fx_authors sample_data = Given ads" "fx_books sample_data = Given bds"
      "list_all2 author_from (Author_objects reloaded) ads"
      "list_all2 book_from (Book_objects reloaded) bds"
    by blast
  from r(1) have ads: "ads = [tolkien_data]" by (simp add: sample_data_def)
  from r(2) have bds: "bds = [hobbit_data]" by (simp add: sample_data_def)
  have c: "carpenter \<in> set (Author_objects library)" "author_pk carpenter = 2"
    by (simp_all add: library_def carpenter_def)
  have st: "fx_authors stray_book_data = Given [tolkien_data] \<and>
            fx_books stray_book_data = Given [hobbit_data\<lparr>bd_author_id := Given 2\<rparr>] \<and>
            hobbit_data\<lparr>bd_author_id := Given 2\<rparr> \<in> set [hobbit_data\<lparr>bd_author_id := Given 2\<rparr>] \<and>
            bd_author_id (hobbit_data\<lparr>bd_author_id := Given 2\<rparr>) \<notin> ad_id ` set [tolkien_data] \<and>
            Null \<notin> ad_id ` set [tolkien_data]"
    by (simp add: stray_book_data_def tolkien_data_def)
  from C4 [where s = library and data = stray_book_data and ads = "[tolkien_data]"
        and bds = "[hobbit_data\<lparr>bd_author_id := Given 2\<rparr>]"
        and bd = "hobbit_data\<lparr>bd_author_id := Given 2\<rparr>",
      THEN conjunct2, THEN conjunct2, THEN conjunct1] st
  have f: "fst (handle library stray_book_data) \<noteq> None" by blast
  have lb: "bd_title (hobbit_data\<lparr>bd_author_id := Given 2\<rparr>) \<noteq> Absent \<and>
            bd_author_id (hobbit_data\<lparr>bd_author_id := Given 2\<rparr>) = Given 2 \<and>
            (Map.empty(1 \<mapsto> tolkien)) (2::int) = None"
    by (simp add: hobbit_data_def)
  from C4 [where bd = "hobbit_data\<lparr>bd_author_id := Given 2\<rparr>" and n = 2
        and authors = "Map.empty(1 \<mapsto> tolkien)" and st = library,
      THEN conjunct2, THEN conjunct2, THEN conjunct2] lb
  have k: "load_book (Map.empty(1 \<mapsto> tolkien)) library (hobbit_data\<lparr>bd_author_id := Given 2\<rparr>)
             = Inl (KeyError (KInt 2))" by blast
  show ?thesis
    using hs r(3,4) c f k unfolding ads bds by (intro conjI)
qed

section \<open>Listing books with a search term\<close>

text \<open>
  Claim C5, as amended. For every catalog state, listing the books with the search
  parameter "Tolkien" returns exactly the books (joined with their author) whose title,
  whose author's name or whose isbn contains "Tolkien" without regard to case, ordered by
  title ascending; the response is the list of the book shapes of those rows.

  The claim as stated fails: the view also searches \<open>title\<close> and \<open>isbn\<close>, so a book titled
  "Tolkien: A Biography" by Humphrey Carpenter is returned although its author's name
  does not contain the term.
\<close>

theorem C5_list_books_search:
  "set (BookViewSet_filter_queryset s ''Tolkien'') =
     {b \<in> set (Book_objects s). \<exists>a. Book_author s b = Some a \<and>
        (icontains ''Tolkien'' (title b) \<or> icontains ''Tolkien'' (name a) \<or>
         icontains ''Tolkien'' (isbn b))} \<and>
   sorted (map title (BookViewSet_filter_queryset s ''Tolkien'')) \<and>
   (\<exists>ws. BookViewSet_list s ''Tolkien'' = Inr ws \<and>
         map Inr ws = map (BookSerializer s) (BookViewSet_filter_queryset s ''Tolkien''))"
proof (intro conjI)
  show "set (BookViewSet_filter_queryset s ''Tolkien'') =
     {b \<in> set (Book_objects s). \<exists>a. Book_author s b = Some a \<and>
        (icontains ''Tolkien'' (title b) \<or> icontains ''Tolkien'' (name a) \<or>
         icontains ''Tolkien'' (isbn b))}"
    unfolding BookViewSet_filter_queryset_def SearchFilter_filter Tolkien_terms
      BookViewSet_search_fields_def BookViewSet_queryset_def author__name_def
    by auto
  show "sorted (map title (BookViewSet_filter_queryset s ''Tolkien''))"
    by (simp add: BookViewSet_filter_queryset_def)
  have "list_all (\<lambda>b. \<exists>w. BookSerializer s b = Inr w) (BookViewSet_filter_queryset s ''Tolkien'')"
    unfolding list_all_iff BookViewSet_filter_queryset_def SearchFilter_filter
      BookViewSet_queryset_def BookSerializer_def
    by auto
  then show "\<exists>ws. BookViewSet_list s ''Tolkien'' = Inr ws \<and>
         map Inr ws = map (BookSerializer s) (BookViewSet_filter_queryset s ''Tolkien'')"
    unfolding BookViewSet_list_def by (rule serialize_many_ok)
qed

theorem C5_list_books_search_witness:
  "biography \<in> set (BookViewSet_filter_queryset library ''Tolkien'') \<and>
   hobbit \<in> set (BookViewSet_filter_queryset library ''Tolkien'') \<and>
   sorted (map title (BookViewSet_filter_queryset library ''Tolkien''))"
proof -
  have b: "biography \<in> set (Book_objects library)" "Book_author library biography = Some carpenter"
      "icontains ''Tolkien'' (title biography)"
    by code_simp+
  have h: "hobbit \<in> set (Book_objects library)" "Book_author library hobbit = Some tolkien"
      "icontains ''Tolkien'' (name tolkien)"
    by code_simp+
  from C5_list_books_search [of library]
  have s: "set (BookViewSet_filter_queryset library ''Tolkien'') =
     {b \<in> set (Book_objects library). \<exists>a. Book_author library b = Some a \<and>
        (icontains ''Tolkien'' (title b) \<or> icontains ''Tolkien'' (name a) \<or>
         icontains ''Tolkien'' (isbn b))}"
    and o: "sorted (map title (BookViewSet_filter_queryset library ''Tolkien''))"
    by simp_all
  have "biography \<in> set (BookViewSet_filter_queryset library ''Tolkien'')"
    unfolding s using b by simp
  moreover have "hobbit \<in> set (BookViewSet_filter_queryset library ''Tolkien'')"
    unfolding s using h by simp
  ultimately show ?thesis using o by simp
qed

theorem C5_author_name_only_counterexample:
  "biography \<in> set (BookViewSet_filter_queryset library ''Tolkien'') \<and>
   Book_author library biography = Some carpenter \<and>
   \<not> icontains ''Tolkien'' (name carpenter)"
  by code_simp

section \<open>The summary and author shapes\<close>

text \<open>
  Claim C6. The summary shape of a book has exactly the fields id, title, published_date
  and isbn, in that order and with the book's values, and no author field. The shape of
  an author has exactly the fields id, name, birth_date, country and books, where books
  is the list of the summary shapes of the books that refer to the author (each once,
  ordered by title).
\<close>

theorem C6_wire_shapes:
  "keys (BookSummarySerializer b) = [''id'', ''title'', ''published_date'', ''isbn''] \<and>
   ''author'' \<notin> set (keys (BookSummarySerializer b)) \<and>
   field_of (BookSummarySerializer b) ''id'' = Some (WInt (book_pk b)) \<and>
   field_of (BookSummarySerializer b) ''title'' = Some (WStr (title b)) \<and>
   field_of (BookSummarySerializer b) ''published_date'' = Some (WDate (published_date b)) \<and>
   field_of (BookSummarySerializer b) ''isbn'' = Some (WStr (isbn b)) \<and>
   keys (AuthorSerializer s a) = [''id'', ''name'', ''birth_date'', ''country'', ''books''] \<and>
   field_of (AuthorSerializer s a) ''id'' = Some (WInt (author_pk a)) \<and>
   field_of (AuthorSerializer s a) ''name'' = Some (WStr (name a)) \<and>
   field_of (AuthorSerializer s a) ''birth_date'' =
     Some (case birth_date a of None \<Rightarrow> WNull | Some d \<Rightarrow> WDate d) \<and>
   field_of (AuthorSerializer s a) ''country'' = Some (WStr (country a)) \<and>
   field_of (AuthorSerializer s a) ''books'' =
     Some (WList (map BookSummarySerializer (Author_books s a))) \<and>
   set (Author_books s a) = {b \<in> set (Book_objects s). author_id b = author_pk a} \<and>
   length (Author_books s a) =
     length (filter (\<lambda>b. author_id b = author_pk a) (Book_objects s)) \<and>
   sorted (map title (Author_books s a))"
  by (simp add: keys_def field_of_def BookSummarySerializer_def AuthorSerializer_def
      set_Author_books length_Author_books sorted_Author_books)

theorem C6_wire_shapes_witness:
  "keys (BookSummarySerializer hobbit) = [''id'', ''title'', ''published_date'', ''isbn''] \<and>
   keys (AuthorSerializer library tolkien) = [''id'', ''name'', ''birth_date'', ''country'', ''books''] \<and>
   field_of (AuthorSerializer library tolkien) ''books'' =
     Some (WList [BookSummarySerializer hobbit, BookSummarySerializer silmarillion])"
  using C6_wire_shapes [of hobbit library tolkien] by (simp add: Author_books_library)

section \<open>Creating an author and reading it back\<close>

text \<open>
  Claim C7, as amended. For every author payload that passes validation, create answers
  with a shape and retrieving the assigned id (a key no author had) returns the same
  shape: the assigned id, the submitted name and country with leading and trailing white
  space trimmed (the empty string for a country that was not submitted), the submitted
  birth date (null when it was null or not submitted), and an empty books list.

  The claim as stated fails: a submitted name " A" is valid and comes back as "A".
\<close>

theorem C7_author_create_retrieve:
  assumes ok: "store_ok s" and valid: "AuthorSerializer_is_valid False p = Inr v"
  shows "\<exists>n w s'. p_name p = Given n \<and>
           AuthorViewSet_create s p = Inr (w, s') \<and>
           store_ok s' \<and>
           author_seq s + 1 \<notin> author_pk ` set (Author_objects s) \<and>
           AuthorViewSet_retrieve s' (author_seq s + 1) = Inr w \<and>
           w = WObj [(''id'', WInt (author_seq s + 1)),
                     (''name'', WStr (strip n)),
                     (''birth_date'', (case p_birth_date p of Given d \<Rightarrow> WDate d | _ \<Rightarrow> WNull)),
                     (''country'', WStr (case p_country p of Given c \<Rightarrow> strip c | _ \<Rightarrow> [])),
                     (''books'', WList [])]"
proof -
  from AuthorSerializer_is_valid_Inr [OF valid] obtain n where n: "p_name p = Given n"
    and v: "v = (Some (strip n),
                 (case p_birth_date p of Absent \<Rightarrow> None | Null \<Rightarrow> Some None | Given d \<Rightarrow> Some (Some d)),
                 (case p_country p of Given c \<Rightarrow> Some (strip c) | _ \<Rightarrow> None))"
    by blast
  define a where "a = \<lparr>author_pk = author_seq s + 1, name = strip n,
                       birth_date = (case p_birth_date p of Given d \<Rightarrow> Some d | _ \<Rightarrow> None),
                       country = (case p_country p of Given c \<Rightarrow> strip c | _ \<Rightarrow> [])\<rparr>"
  define s' where "s' = s\<lparr>Author_objects := Author_objects s @ [a], author_seq := author_seq s + 1\<rparr>"
  define w where "w = AuthorSerializer s' a"
  have c: "AuthorViewSet_create s p = Inr (w, s')"
    unfolding AuthorViewSet_create_def valid v Author_objects_create_def w_def s'_def a_def
    by (cases "p_birth_date p"; cases "p_country p") (simp_all add: Let_def)
  have pk: "author_pk a = author_seq s + 1" by (simp add: a_def)
  note fr = fresh_author_pk [OF ok]
  have ok': "store_ok s'"
    unfolding s'_def using ok by (rule store_ok_add_author) (simp_all add: pk fr)
  have "find (\<lambda>x. author_pk x = author_seq s + 1) (Author_objects s @ [a]) = Some a"
    using fr(1) pk by (rule find_snoc_fresh)
  then have r: "AuthorViewSet_retrieve s' (author_seq s + 1) = Inr w"
    by (simp add: AuthorViewSet_retrieve_def AuthorViewSet_queryset_def s'_def w_def)
  have "\<forall>b \<in> set (Book_objects s). author_id b \<noteq> author_seq s + 1"
  proof
    fix b assume "b \<in> set (Book_objects s)"
    then have "author_id b \<in> author_id ` set (Book_objects s)" by (rule imageI)
    with fr(2) show "author_id b \<noteq> author_seq s + 1" by metis
  qed
  then have "filter (\<lambda>b. author_id b = author_seq s + 1) (Book_objects s) = []"
    by (simp add: filter_empty_conv)
  then have "Author_books s' a = []"
    by (simp add: Author_books_def s'_def pk)
  then have sh: "w = WObj [(''id'', WInt (author_seq s + 1)),
                     (''name'', WStr (strip n)),
                     (''birth_date'', (case p_birth_date p of Given d \<Rightarrow> WDate d | _ \<Rightarrow> WNull)),
                     (''country'', WStr (case p_country p of Given c \<Rightarrow> strip c | _ \<Rightarrow> [])),
                     (''books'', WList [])]"
    unfolding w_def AuthorSerializer_def a_def
    by (cases "p_birth_date p") simp_all
  show ?thesis
    by (intro exI [of _ n] exI [of _ w] exI [of _ s'] conjI) (fact n c ok' fr(1) r sh)+
qed

theorem C7_author_create_retrieve_witness:
  "store_ok library \<and>
   AuthorSerializer_is_valid False lewis_payload =
     Inr (Some ''C.S. Lewis'', Some (Some (Date 1898 11 29)), Some ''UK'') \<and>
   (\<exists>w s'. AuthorViewSet_create library lewis_payload = Inr (w, s') \<and>
           AuthorViewSet_retrieve s' 3 = Inr w \<and>
           w = WObj [(''id'', WInt 3),
                     (''name'', WStr ''C.S. Lewis''),
                     (''birth_date'', WDate (Date 1898 11 29)),
                     (''country'', WStr ''UK''),
                     (''books'', WList [])])"
proof -
  have v: "AuthorSerializer_is_valid False lewis_payload =
             Inr (Some ''C.S. Lewis'', Some (Some (Date 1898 11 29)), Some ''UK'')"
    by code_simp
  have st: "strip ''C.S. Lewis'' = ''C.S. Lewis''" "strip ''UK'' = ''UK''" by code_simp+
  have sq: "author_seq library + 1 = 3" by (simp add: library_def)
  from C7_author_create_retrieve [OF store_ok_library v]
  obtain n w s' where r: "p_name lewis_payload = Given n"
      "AuthorViewSet_create library lewis_payload = Inr (w, s')"
      "AuthorViewSet_retrieve s' (author_seq library + 1) = Inr w"
      "w = WObj [(''id'', WInt (author_seq library + 1)),
                 (''name'', WStr (strip n)),
                 (''birth_date'', (case p_birth_date lewis_payload of Given d \<Rightarrow> WDate d | _ \<Rightarrow> WNull)),
                 (''country'', WStr (case p_country lewis_payload of Given c \<Rightarrow> strip c | _ \<Rightarrow> [])),
                 (''books'', WList [])]"
    by blast
  from r(1) have n: "n = ''C.S. Lewis''" by (simp add: lewis_payload_def)
  have w: "w = WObj [(''id'', WInt 3),
                     (''name'', WStr ''C.S. Lewis''),
                     (''birth_date'', WDate (Date 1898 11 29)),
                     (''country'', WStr ''UK''),
                     (''books'', WList [])]"
    using r(4) by (simp add: n st sq lewis_payload_def)
  from r(3) have "AuthorViewSet_retrieve s' 3 = Inr w" by (simp add: sq)
  with store_ok_library v r(2) w show ?thesis by blast
qed

theorem C7_untrimmed_name_counterexample:
  "AuthorSerializer_is_valid False padded_payload = Inr (Some ''A'', None, None) \<and>
   AuthorViewSet_create empty_store padded_payload =
     Inr (WObj [(''id'', WInt 1), (''name'', WStr ''A''), (''birth_date'', WNull),
                (''country'', WStr []), (''books'', WList [])],
          \<lparr>Author_objects = [\<lparr>author_pk = 1, name = ''A'', birth_date = None, country = []\<rparr>],
           Book_objects = [], author_seq = 1, book_seq = 0\<rparr>) \<and>
   AuthorViewSet_retrieve
     \<lparr>Author_objects = [\<lparr>author_pk = 1, name = ''A'', birth_date = None, country = []\<rparr>],
      Book_objects = [], author_seq = 1, book_seq = 0\<rparr> 1 =
     Inr (WObj [(''id'', WInt 1), (''name'', WStr ''A''), (''birth_date'', WNull),
                (''country'', WStr []), (''books'', WList [])]) \<and>
   p_name padded_payload = Given '' A'' \<and>
   '' A'' \<noteq> ''A''"
  by code_simp

section \<open>Listing authors with a search term\<close>




section \<open>The book shape\<close>

text \<open>
  Claim C9. Retrieving a stored book gives the shape id, title, author, published_date,
  isbn in which author is the complete author shape of the book's author: it still has
  its books field, and that list contains the summary of the very book retrieved.
\<close>

theorem C9_book_shape_nests_author_with_books:
  assumes ok: "store_ok s" and b: "b \<in> set (Book_objects s)"
  shows "\<exists>a. a \<in> set (Author_objects s) \<and> author_pk a = author_id b \<and>
            BookViewSet_retrieve s (book_pk b) =
              Inr (WObj [(''id'', WInt (book_pk b)),
                         (''title'', WStr (title b)),
                         (''author'', AuthorSerializer s a),
                         (''published_date'', WDate (published_date b)),
                         (''isbn'', WStr (isbn b))]) \<and>
            keys (AuthorSerializer s a) = [''id'', ''name'', ''birth_date'', ''country'', ''books''] \<and>
            field_of (AuthorSerializer s a) ''books'' =
              Some (WList (map BookSummarySerializer (Author_books s a))) \<and>
            BookSummarySerializer b \<in> set (map BookSummarySerializer (Author_books s a))"
proof -
  from Book_author_Some [OF ok b] obtain a where a: "Book_author s b = Some a"
      "a \<in> set (Author_objects s)" "author_pk a = author_id b" by blast
  have d: "distinct (map book_pk (Book_objects s))" using ok by (simp add: store_ok_def)
  have "find (\<lambda>y. book_pk y = book_pk b) (Book_objects s) = Some b"
    using d b by (rule find_distinct_pk)
  then have r: "BookViewSet_retrieve s (book_pk b) = BookSerializer s b"
    by (simp add: BookViewSet_retrieve_def BookViewSet_queryset_ok [OF ok])
  have "b \<in> set (Author_books s a)" using b a(3) by (simp add: set_Author_books)
  then have m: "BookSummarySerializer b \<in> set (map BookSummarySerializer (Author_books s a))"
    by simp
  show ?thesis
    by (rule exI [of _ a])
       (simp add: a r m BookSerializer_def keys_def field_of_def AuthorSerializer_def del: set_map)
qed

theorem C9_book_shape_nests_author_with_books_witness:
  "store_ok library \<and> hobbit \<in> set (Book_objects library) \<and>
   (\<exists>a. author_pk a = 1 \<and>
        BookViewSet_retrieve library 1 =
          Inr (WObj [(''id'', WInt 1),
                     (''title'', WStr ''The Hobbit''),
                     (''author'', AuthorSerializer library a),
                     (''published_date'', WDate (Date 1937 9 21)),
                     (''isbn'', WStr ''9780547928227'')]) \<and>
        BookSummarySerializer hobbit \<in> set (map BookSummarySerializer (Author_books library a)))"
proof -
  have h: "hobbit \<in> set (Book_objects library)" by (simp add: library_def)
  from C9_book_shape_nests_author_with_books [OF store_ok_library h]
  obtain a where a: "author_pk a = author_id hobbit"
      "BookViewSet_retrieve library (book_pk hobbit) =
         Inr (WObj [(''id'', WInt (book_pk hobbit)),
                    (''title'', WStr (title hobbit)),
                    (''author'', AuthorSerializer library a),
                    (''published_date'', WDate (published_date hobbit)),
                    (''isbn'', WStr (isbn hobbit))])"
      "BookSummarySerializer hobbit \<in> set (map BookSummarySerializer (Author_books library a))"
    by blast
  show ?thesis
    using store_ok_library h a by (intro conjI exI [of _ a]) (simp_all add: hobbit_def)
qed

section \<open>The bulk loader requires every key\<close>

text \<open>
  Claim C10. An author entry that lacks one of the keys id, name, birth_date, country, or
  a book entry that lacks one of title, author_id, published_date, isbn, makes the load
  fail: the entry's step raises \<open>KeyError\<close> (for an author entry, with the first missing
  key), so no field is defaulted. This holds for \<open>birth_date\<close> and \<open>country\<close> too, which
  the model lets be empty.
\<close>

theorem C10_loader_requires_every_key:
  "(fx_authors data = Given ads \<and> ad \<in> set ads \<and> \<not> complete_author_data ad \<longrightarrow>
      fst (handle s data) \<noteq> None) \<and>
   (fx_books data = Given bds \<and> bd \<in> set bds \<and> \<not> complete_book_data bd \<longrightarrow>
      fst (handle s data) \<noteq> None) \<and>
   (\<not> complete_author_data ad \<longrightarrow>
      (\<exists>k. load_author authors st ad = Inl (KeyError (KStr k)) \<and>
           k \<in> set [''id'', ''name'', ''birth_date'', ''country''])) \<and>
   (ad_id ad \<noteq> Absent \<and> ad_name ad \<noteq> Absent \<and> ad_birth_date ad = Absent \<longrightarrow>
      load_author authors st ad = Inl (KeyError (KStr ''birth_date''))) \<and>
   (ad_id ad \<noteq> Absent \<and> ad_name ad \<noteq> Absent \<and> ad_birth_date ad \<noteq> Absent \<and>
      ad_country ad = Absent \<longrightarrow>
      load_author authors st ad = Inl (KeyError (KStr ''country''))) \<and>
   (\<not> complete_book_data bd \<longrightarrow> (\<exists>k. load_book authors st bd = Inl (KeyError k)))"
proof (intro conjI impI)
  assume "fx_authors data = Given ads \<and> ad \<in> set ads \<and> \<not> complete_author_data ad"
  then show "fst (handle s data) \<noteq> None"
    using handle_fails_incomplete_author [of data ads ad s] by blast
next
  assume "fx_books data = Given bds \<and> bd \<in> set bds \<and> \<not> complete_book_data bd"
  then show "fst (handle s data) \<noteq> None"
    using handle_fails_incomplete_book [of data bds bd s] by blast
next
  assume "\<not> complete_author_data ad"
  then show "\<exists>k. load_author authors st ad = Inl (KeyError (KStr k)) \<and>
           k \<in> set [''id'', ''name'', ''birth_date'', ''country'']"
    by (rule load_author_incomplete)
next
  assume "ad_id ad \<noteq> Absent \<and> ad_name ad \<noteq> Absent \<and> ad_birth_date ad = Absent"
  then show "load_author authors st ad = Inl (KeyError (KStr ''birth_date''))"
    using load_author_no_birth_date [of ad authors st] by blast
next
  assume "ad_id ad \<noteq> Absent \<and> ad_name ad \<noteq> Absent \<and> ad_birth_date ad \<noteq> Absent \<and>
      ad_country ad = Absent"
  then show "load_author authors st ad = Inl (KeyError (KStr ''country''))"
    using load_author_no_country [of ad authors st] by blast
next
  assume "\<not> complete_book_data bd"
  then show "\<exists>k. load_book authors st bd = Inl (KeyError k)"
    by (rule load_book_incomplete)
qed

theorem C10_loader_requires_every_key_witness:
  "\<not> complete_author_data (tolkien_data\<lparr>ad_country := Absent\<rparr>) \<and>
   fst (handle library no_country_data) \<noteq> None \<and>
   load_author Map.empty library (tolkien_data\<lparr>ad_country := Absent\<rparr>)
     = Inl (KeyError (KStr ''country'')) \<and>
   \<not> complete_book_data (hobbit_data\<lparr>bd_published_date := Absent\<rparr>) \<and>
   fst (handle library no_date_data) \<noteq> None \<and>
   handle library no_country_data =
     (Some (KeyError (KStr ''country'')),
      \<lparr>Author_objects = [], Book_objects = [], author_seq = 2, book_seq = 3\<rparr>) \<and>
   handle library no_date_data =
     (Some (KeyError (KStr ''published_date'')),
      \<lparr>Author_objects = [tolkien], Book_objects = [], author_seq = 2, book_seq = 3\<rparr>)"
proof -
  note C10 = C10_loader_requires_every_key
  have na: "\<not> complete_author_data (tolkien_data\<lparr>ad_country := Absent\<rparr>)"
    by (simp add: complete_author_data_def)
  have nb: "\<not> complete_book_data (hobbit_data\<lparr>bd_published_date := Absent\<rparr>)"
    by (simp add: complete_book_data_def)
  have ha: "fx_authors no_country_data = Given [tolkien_data\<lparr>ad_country := Absent\<rparr>] \<and>
            tolkien_data\<lparr>ad_country := Absent\<rparr> \<in> set [tolkien_data\<lparr>ad_country := Absent\<rparr>] \<and>
            \<not> complete_author_data (tolkien_data\<lparr>ad_country := Absent\<rparr>)"
    using na by (simp add: no_country_data_def)
  have hb: "fx_books no_date_data = Given [hobbit_data\<lparr>bd_published_date := Absent\<rparr>] \<and>
            hobbit_data\<lparr>bd_published_date := Absent\<rparr> \<in> set [hobbit_data\<lparr>bd_published_date := Absent\<rparr>] \<and>
            \<not> complete_book_data (hobbit_data\<lparr>bd_published_date := Absent\<rparr>)"
    using nb by (simp add: no_date_data_def)
  from C10 [where data = no_country_data and ads = "[tolkien_data\<lparr>ad_country := Absent\<rparr>]"
        and ad = "tolkien_data\<lparr>ad_country := Absent\<rparr>" and s = library, THEN conjunct1] ha
  have fa: "fst (handle library no_country_data) \<noteq> None" by blast
  from C10 [where data = no_date_data and bds = "[hobbit_data\<lparr>bd_published_date := Absent\<rparr>]"
        and bd = "hobbit_data\<lparr>bd_published_date := Absent\<rparr>" and s = library,
      THEN conjunct2, THEN conjunct1] hb
  have fb: "fst (handle library no_date_data) \<noteq> None" by blast
  have pc: "ad_id (tolkien_data\<lparr>ad_country := Absent\<rparr>) \<noteq> Absent \<and>
            ad_name (tolkien_data\<lparr>ad_country := Absent\<rparr>) \<noteq> Absent \<and>
            ad_birth_date (tolkien_data\<lparr>ad_country := Absent\<rparr>) \<noteq> Absent \<and>
            ad_country (tolkien_data\<lparr>ad_country := Absent\<rparr>) = Absent"
    by (simp add: tolkien_data_def)
  from C10 [where ad = "tolkien_data\<lparr>ad_country := Absent\<rparr>" and authors = Map.empty
        and st = library,
      THEN conjunct2, THEN conjunct2, THEN conjunct2, THEN conjunct2, THEN conjunct1] pc
  have la: "load_author Map.empty library (tolkien_data\<lparr>ad_country := Absent\<rparr>)
              = Inl (KeyError (KStr ''country''))" by blast
  have va: "handle library no_country_data =
     (Some (KeyError (KStr ''country'')),
      \<lparr>Author_objects = [], Book_objects = [], author_seq = 2, book_seq = 3\<rparr>)"
    by code_simp
  have vb: "handle library no_date_data =
     (Some (KeyError (KStr ''published_date'')),
      \<lparr>Author_objects = [tolkien], Book_objects = [], author_seq = 2, book_seq = 3\<rparr>)"
    by code_simp
  show ?thesis
    using na fa la nb fb va vb by (intro conjI)
qed

end
